theory Spec2Isabelle
  imports Complex_Main
begin

section \<open>Data model of \<^verbatim>\<open>main.c\<close>\<close>

text \<open>
  The three structs of the program become records with the fields of the source.
  A C \<^verbatim>\<open>double\<close> field holds a \<^typ>\<open>real\<close>, and every arithmetic operation of the source
  on doubles is followed by the rounding \<open>fl\<close> of the next section, so the functions compute
  the values the program computes in IEEE 754 binary64. A C \<^verbatim>\<open>int\<close> is modelled as an
  \<^typ>\<open>int\<close>: the only integer arithmetic of the program on state fields is a decrement
  guarded by a test that the field is positive, and small constants, so no operation can
  wrap around. Flags (\<^verbatim>\<open>active\<close>, \<^verbatim>\<open>engines_on\<close>, \<^verbatim>\<open>game_over\<close>) stay integers, tested
  against zero as C does. The array \<^verbatim>\<open>terrain_height[21]\<close> is a list, written by index.
\<close>

record GameConfig =
  gravity :: real
  engine_force :: real
  initial_fuel :: int
  display_delta_v :: int

record LandingRadar =
  active :: int
  turns_remaining :: int
  terrain_height :: "real list"
  safe_landing_x :: real
  safe_landing_score :: real

record GameState =
  A :: real
  B :: real
  vel_h :: real
  vel_v :: real
  prev_vel_h :: real
  prev_vel_v :: real
  C :: int
  engines_on :: int
  time_step :: real
  radar :: LandingRadar

section \<open>Double arithmetic\<close>

text \<open>
  A binary64 operation returns the exact result rounded to the nearest double, ties going
  to the double with an even significand. \<open>rne\<close> rounds a real to the nearest integer,
  ties to even; \<open>binade x\<close> is the exponent \<open>e\<close> with \<open>2^e \<le> |x| < 2^(e+1)\<close>, not below
  \<open>-1022\<close> (the subnormal range shares the spacing of the smallest normal binade); a double
  of that binade is a multiple of \<open>2^(e-52)\<close>, and \<open>fl x\<close> is the nearest such multiple.
  A decimal constant of the source, such as \<^verbatim>\<open>0.3\<close>, denotes the double \<open>fl 0.3\<close>; the small
  integer constants and \<^verbatim>\<open>1.5\<close>, \<^verbatim>\<open>2.0\<close>, \<^verbatim>\<open>0.5\<close> are doubles themselves.

  Outside the model: overflow to infinity (results of magnitude \<open>2^1024\<close> and above),
  infinities and NaN. The model takes each operation to be rounded on its own to binary64
  (no fused multiply-add, no extended precision), and the library's \<^verbatim>\<open>sin\<close> and \<^verbatim>\<open>cos\<close> to
  return the double nearest the exact value; nothing proved below depends on the latter.
\<close>

definition rne :: "real \<Rightarrow> int" where
  "rne q =
     (let f = \<lfloor>q\<rfloor>; r = q - real_of_int f
      in if r < 1/2 then f else if 1/2 < r then f + 1 else if even f then f else f + 1)"

definition binade :: "real \<Rightarrow> int" where
  "binade x = max \<lfloor>log 2 \<bar>x\<bar>\<rfloor> (- 1022)"

definition fl :: "real \<Rightarrow> real" where
  "fl x =
     (if x = 0 then 0
      else real_of_int (rne (x / 2 powi (binade x - 52))) * 2 powi (binade x - 52))"

text \<open>
  The conversion \<^verbatim>\<open>(int)d\<close> of a double truncates toward zero. (Outside the range of
  \<^verbatim>\<open>int\<close> the C conversion is undefined; the model keeps the mathematical value.)
\<close>

definition c_trunc :: "real \<Rightarrow> int" where
  "c_trunc d = (if 0 \<le> d then \<lfloor>d\<rfloor> else - \<lfloor>- d\<rfloor>)"

section \<open>Safety scorer\<close>

text \<open>
  \<^verbatim>\<open>calculate_landing_safety\<close>, lines 224-235. The index test comes first, so every
  read of the array is at an index in \<open>0..20\<close>, and the neighbours are read only for
  indices \<open>1..19\<close>.
\<close>

definition terrain_index :: "real \<Rightarrow> int" where
  "terrain_index x_pos = c_trunc (fl (fl (x_pos + 100) / 10))"

definition calculate_landing_safety :: "GameState \<Rightarrow> real \<Rightarrow> real" where
  "calculate_landing_safety state x_pos =
     (let index = terrain_index x_pos in
      if index < 0 \<or> index \<ge> 21 then 0
      else
        let h = terrain_height (radar state);
            safety = fl (100 - fl (\<bar>h ! nat index\<bar> * 10));
            safety =
              (if index > 0 \<and> index < 20 then
                 let slope_left = \<bar>fl (h ! nat index - h ! nat (index - 1))\<bar>;
                     slope_right = \<bar>fl (h ! nat (index + 1) - h ! nat index)\<bar>
                 in fl (safety - fl (fl (slope_left + slope_right) * 5))
               else safety)
        in max 0 safety)"

section \<open>Physics integrator\<close>

text \<open>\<^verbatim>\<open>update_physics\<close>, lines 358-379. Commands are the characters the source compares.\<close>

definition update_physics :: "GameState \<Rightarrow> GameConfig \<Rightarrow> char \<Rightarrow> GameState" where
  "update_physics state config move_command =
     (let dt = time_step state;
          s1 = state\<lparr>prev_vel_h := vel_h state, prev_vel_v := vel_v state\<rparr>;
          s2 = s1\<lparr>vel_v := fl (vel_v s1 - fl (gravity config * dt))\<rparr>;
          s3 = (if engines_on s2 \<noteq> 0 then
                  (if move_command = CHR ''Y'' then
                     s2\<lparr>vel_v := fl (vel_v s2 + fl (engine_force config * dt)),
                        vel_h := fl (vel_h s2 + fl (fl (engine_force config * dt) * fl 0.3))\<rparr>
                   else if move_command = CHR ''Z'' then
                     s2\<lparr>vel_v := fl (vel_v s2 + fl (engine_force config * dt)),
                        vel_h := fl (vel_h s2 - fl (fl (engine_force config * dt) * fl 0.3))\<rparr>
                   else s2)
                else s2);
          s4 = s3\<lparr>A := fl (A s3 + fl (vel_h s3 * dt))\<rparr>;
          s5 = s4\<lparr>B := fl (B s4 + fl (vel_v s4 * dt))\<rparr>
      in if B s5 < 0 then s5\<lparr>B := 0\<rparr> else s5)"

section \<open>Landing evaluator\<close>

text \<open>
  \<^verbatim>\<open>check_landing\<close>, lines 381-402: \<open>1\<close> is success, \<open>-1\<close> a crash, \<open>0\<close> still flying.
\<close>

definition SAFE_VERTICAL_SPEED :: real where
  "SAFE_VERTICAL_SPEED = 2.0"

definition SAFE_HORIZONTAL_SPEED :: real where
  "SAFE_HORIZONTAL_SPEED = 1.5"

definition check_landing :: "GameState \<Rightarrow> int" where
  "check_landing state =
     (if B state \<le> 0 then
        let terrain_penalty =
              (if A state \<ge> -100 \<and> A state \<le> 100 then
                 let index = c_trunc (fl (fl (A state + 100) / 10.0));
                     index = (if index < 0 then 0 else index);
                     index = (if index > 20 then 20 else index)
                 in fl (\<bar>terrain_height (radar state) ! nat index\<bar> * fl 0.2)
               else 0)
        in if \<bar>vel_v state\<bar> < fl (SAFE_VERTICAL_SPEED - terrain_penalty) \<and>
              \<bar>vel_h state\<bar> < fl (SAFE_HORIZONTAL_SPEED - terrain_penalty)
           then 1 else -1
      else 0)"

section \<open>Console output\<close>

text \<open>
  The program reports through \<^verbatim>\<open>printf\<close>. Each function of the model returns, next to the
  state, the list of messages it prints, one constructor per message of the source. The
  multi-line displays (\<^verbatim>\<open>display_status\<close>, \<^verbatim>\<open>display_visualizer\<close>,
  \<^verbatim>\<open>display_landing_radar\<close>) read the state and never write it; they are recorded as one
  message each, without their layout. \<^verbatim>\<open>save_result\<close> appends to a file and is recorded
  with its outcome label.
\<close>

datatype message =
    GameOverReminder
  | NewGameStarted
  | ConfigurationUpdated
  | ThanksForPlaying
  | EnginesOnMsg
  | EnginesOffMsg
  | ActivatingRadar
  | NoFuelForRadar
  | UnknownCommand
  | NoFuelDrifting
  | CannotBurn
  | RadarFromPreviousPosition
  | RadarData
  | RadarVisuals
  | LanderStatus
  | SignalLost
  | EagleHasLanded
  | Crashed
  | SaveResult string
  | FuelDepleted

definition display_landing_radar :: "GameState \<Rightarrow> message list" where
  "display_landing_radar state = (if active (radar state) = 0 then [] else [RadarData])"

definition display_status :: "GameState \<Rightarrow> GameConfig \<Rightarrow> message list" where
  "display_status state config =
     (if active (radar state) \<noteq> 0 then [RadarVisuals] else []) @ [LanderStatus]"

section \<open>Radar activation\<close>

text \<open>\<^verbatim>\<open>activate_landing_radar\<close>, lines 237-242.\<close>

definition activate_landing_radar :: "GameState \<Rightarrow> GameState \<times> message list" where
  "activate_landing_radar state =
     (let s1 = state\<lparr>radar := (radar state)\<lparr>active := 1\<rparr>\<rparr>;
          s2 = s1\<lparr>radar := (radar s1)\<lparr>turns_remaining := 3\<rparr>\<rparr>
      in (s2, ActivatingRadar # display_landing_radar s2))"

section \<open>Turn orchestrator\<close>

text \<open>
  \<^verbatim>\<open>handle_game_turn\<close>, lines 142-185. The result is the state, the flag the source writes
  through \<^verbatim>\<open>game_over\<close>, and the messages printed. \<open>turn_prologue\<close> is the first
  \<^verbatim>\<open>if\<close> of the function (out of fuel: engines off, command forced to \<open>X\<close>),
  \<open>turn_rejected\<close> the condition of the early \<^verbatim>\<open>return\<close>, \<open>physics_and_fuel\<close> lines
  159-160 and \<open>radar_decay\<close> lines 162-168.
\<close>

definition turn_prologue :: "GameState \<Rightarrow> char \<Rightarrow> GameState \<times> char \<times> message list" where
  "turn_prologue state command =
     (if C state \<le> 0 then (state\<lparr>engines_on := 0\<rparr>, CHR ''X'', [NoFuelDrifting])
      else (state, command, []))"

definition turn_rejected :: "GameState \<Rightarrow> char \<Rightarrow> bool" where
  "turn_rejected state command =
     (case turn_prologue state command of (s1, cmd, out1) \<Rightarrow>
        (cmd = CHR ''Y'' \<or> cmd = CHR ''Z'') \<and> engines_on s1 = 0)"

definition physics_and_fuel :: "GameState \<Rightarrow> GameConfig \<Rightarrow> char \<Rightarrow> GameState" where
  "physics_and_fuel state config cmd =
     (let s2 = update_physics state config cmd
      in if cmd \<noteq> CHR ''X'' then s2\<lparr>C := C s2 - 1\<rparr> else s2)"

definition radar_decay :: "GameState \<Rightarrow> GameState \<times> message list" where
  "radar_decay state =
     (if active (radar state) \<noteq> 0 \<and> turns_remaining (radar state) > 0 then
        let s1 = state\<lparr>radar := (radar state)\<lparr>turns_remaining := turns_remaining (radar state) - 1\<rparr>\<rparr>
        in if turns_remaining (radar s1) \<le> 0
           then (s1\<lparr>radar := (radar s1)\<lparr>active := 0\<rparr>\<rparr>, [SignalLost])
           else (s1, [])
      else (state, []))"

definition handle_game_turn ::
  "GameState \<Rightarrow> GameConfig \<Rightarrow> char \<Rightarrow> int \<Rightarrow> GameState \<times> int \<times> message list" where
  "handle_game_turn state config command game_over =
     (case turn_prologue state command of (s1, cmd, out1) \<Rightarrow>
        if (cmd = CHR ''Y'' \<or> cmd = CHR ''Z'') \<and> engines_on s1 = 0
        then (s1, game_over, out1 @ [CannotBurn])
        else
          let out2 = (if active (radar s1) \<noteq> 0 \<and> turns_remaining (radar s1) > 0
                      then RadarFromPreviousPosition # display_landing_radar s1 else []);
              s3 = physics_and_fuel s1 config cmd
          in case radar_decay s3 of (s4, out3) \<Rightarrow>
               let out = out1 @ out2 @ out3 @ display_status s4 config;
                   landing_result = check_landing s4
               in if landing_result \<noteq> 0 then
                    (if landing_result = 1
                     then (s4, 1, out @ [EagleHasLanded, SaveResult ''SUCCESS''])
                     else (s4, 1, out @ [Crashed, SaveResult ''CRASHED'']))
                  else if C s4 \<le> 0 then (s4, game_over, out @ [FuelDepleted])
                  else (s4, game_over, out))"

section \<open>Terrain generator and flight initialisation\<close>

text \<open>
  \<^verbatim>\<open>rand()\<close> reads and advances the generator of the C library. The model passes that
  generator explicitly: the sequence of values it will return (each non-negative, as
  \<^verbatim>\<open>rand\<close> promises) and the position reached in it.
\<close>

type_synonym rng = "(nat \<Rightarrow> nat) \<times> nat"

definition rand :: "rng \<Rightarrow> int \<times> rng" where
  "rand g = (int (fst g (snd g)), (fst g, Suc (snd g)))"

text \<open>The body of the first loop of \<^verbatim>\<open>generate_terrain_data\<close> (lines 203-209).\<close>

definition terrain_sample :: "nat \<Rightarrow> GameState \<times> rng \<Rightarrow> GameState \<times> rng" where
  "terrain_sample i sg =
     (case sg of (state, g) \<Rightarrow>
        let x_pos = real_of_int (-100 + int i * 10);
            base_height = 0;
            variation = fl (fl (fl (sin (fl (x_pos * fl 0.1))) * 5) +
                            fl (fl (cos (fl (x_pos * fl 0.05))) * 3))
        in case rand g of (r1, g1) \<Rightarrow>
             case (if r1 mod 100 < 15
                   then (case rand g1 of (r2, g2) \<Rightarrow>
                           (fl (real_of_int (r2 mod 20 - 10) * 0.5), g2))
                   else (0, g1)) of
               (hazard, g3) \<Rightarrow>
                 (state\<lparr>radar := (radar state)\<lparr>terrain_height :=
                    (terrain_height (radar state))
                      [i := fl (fl (base_height + variation) + hazard)]\<rparr>\<rparr>, g3))"

text \<open>
  The body of the second loop (lines 212-219); the accumulator is
  \<open>(best_safety, best_x)\<close>.
\<close>

definition best_step :: "GameState \<Rightarrow> nat \<Rightarrow> real \<times> real \<Rightarrow> real \<times> real" where
  "best_step state i acc =
     (case acc of (best_safety, best_x) \<Rightarrow>
        let x_pos = real_of_int (-100 + int i * 10);
            safety = calculate_landing_safety state x_pos
        in if safety > best_safety then (safety, x_pos) else (best_safety, best_x))"

definition best_scan :: "GameState \<Rightarrow> real \<times> real" where
  "best_scan state = fold (best_step state) [1..<20] (-1, 0)"

definition generate_terrain_data :: "GameState \<Rightarrow> rng \<Rightarrow> GameState \<times> rng" where
  "generate_terrain_data state g =
     (case fold terrain_sample [0..<21] (state, g) of (s1, g1) \<Rightarrow>
        case best_scan s1 of (best_safety, best_x) \<Rightarrow>
          let s2 = s1\<lparr>radar := (radar s1)\<lparr>safe_landing_x := best_x\<rparr>\<rparr>;
              s3 = s2\<lparr>radar := (radar s2)\<lparr>safe_landing_score := best_safety\<rparr>\<rparr>
          in (s3, g1))"

text \<open>\<^verbatim>\<open>init_game\<close>, lines 187-200.\<close>

definition init_game :: "GameState \<Rightarrow> GameConfig \<Rightarrow> rng \<Rightarrow> GameState \<times> rng" where
  "init_game state config g =
     (case rand g of (ra, g1) \<Rightarrow>
      case rand g1 of (rb, g2) \<Rightarrow>
      case rand g2 of (rh, g3) \<Rightarrow>
      case rand g3 of (rv, g4) \<Rightarrow>
        let s1 = state\<lparr>A := real_of_int (ra mod 200 - 100)\<rparr>;
            s2 = s1\<lparr>B := real_of_int (rb mod 500 + 100)\<rparr>;
            s3 = s2\<lparr>vel_h := fl (real_of_int (rh mod 20 - 10) / 2.0)\<rparr>;
            s4 = s3\<lparr>vel_v := real_of_int (rv mod 20 - 15)\<rparr>;
            s5 = s4\<lparr>prev_vel_h := vel_h s4, prev_vel_v := vel_v s4\<rparr>;
            s6 = s5\<lparr>C := initial_fuel config, engines_on := 0, time_step := 1.0\<rparr>;
            s7 = s6\<lparr>radar := (radar s6)\<lparr>active := 0, turns_remaining := 0\<rparr>\<rparr>
        in generate_terrain_data s7 g4)"

section \<open>Command loop\<close>

text \<open>
  \<^verbatim>\<open>toupper\<close> in the C locale, on the character codes.
\<close>

definition c_toupper :: "char \<Rightarrow> char" where
  "c_toupper c =
     (let n = (of_char c :: nat) in if 97 \<le> n \<and> n \<le> 122 then char_of (n - 32) else c)"

text \<open>
  \<^verbatim>\<open>configure_game\<close> (lines 426-466) is a dialogue on standard input. The model takes the
  dialogue as the list of the entries made before the user leaves the menu with option 5.
\<close>

datatype menu_entry =
    SetGravity real
  | SetEngineForce real
  | SetInitialFuel int
  | ToggleDisplayMode
  | InvalidChoice

fun menu_apply :: "menu_entry \<Rightarrow> GameConfig \<Rightarrow> GameConfig" where
  "menu_apply (SetGravity v) config = config\<lparr>gravity := v\<rparr>"
| "menu_apply (SetEngineForce v) config = config\<lparr>engine_force := v\<rparr>"
| "menu_apply (SetInitialFuel n) config = config\<lparr>initial_fuel := n\<rparr>"
| "menu_apply ToggleDisplayMode config =
     config\<lparr>display_delta_v := (if display_delta_v config = 0 then 1 else 0)\<rparr>"
| "menu_apply InvalidChoice config = config"

definition configure_game :: "GameConfig \<Rightarrow> menu_entry list \<Rightarrow> GameConfig" where
  "configure_game config entries = fold menu_apply entries config"

text \<open>
  The variables of \<^verbatim>\<open>main\<close>, with the generator of \<^verbatim>\<open>rand\<close>. One iteration of the
  \<^verbatim>\<open>while (1)\<close> loop of \<^verbatim>\<open>main\<close> (lines 77-138) is \<open>main_step\<close>: it takes the character
  read by \<^verbatim>\<open>get_command\<close> and the menu dialogue (read only by command \<open>C\<close>), and
  returns \<open>None\<close> when \<^verbatim>\<open>main\<close> returns (command \<open>Q\<close>).
\<close>

record World =
  config :: GameConfig
  state :: GameState
  game_over :: int
  seed :: rng

type_synonym input = "char \<times> menu_entry list"

definition main_step :: "input \<Rightarrow> World \<Rightarrow> (World \<times> message list) option" where
  "main_step inp w =
     (let command = c_toupper (fst inp) in
      if game_over w \<noteq> 0 \<and> command \<noteq> CHR ''V'' \<and> command \<noteq> CHR ''Q'' \<and> command \<noteq> CHR ''C''
      then Some (w, [GameOverReminder])
      else if command = CHR ''V'' then
        (case init_game (state w) (config w) (seed w) of (s1, g1) \<Rightarrow>
           Some (w\<lparr>state := s1, seed := g1, game_over := 0\<rparr>,
                 NewGameStarted # display_status s1 (config w)))
      else if command = CHR ''C'' then
        Some (w\<lparr>config := configure_game (config w) (snd inp)\<rparr>, [ConfigurationUpdated])
      else if command = CHR ''Q'' then None
      else if command = CHR ''W'' then
        (if game_over w \<noteq> 0 then Some (w, [])
         else Some (w\<lparr>state := (state w)\<lparr>engines_on := 1\<rparr>\<rparr>, [EnginesOnMsg]))
      else if command = CHR ''S'' then
        (if game_over w \<noteq> 0 then Some (w, [])
         else Some (w\<lparr>state := (state w)\<lparr>engines_on := 0\<rparr>\<rparr>, [EnginesOffMsg]))
      else if command = CHR ''R'' then
        (if game_over w \<noteq> 0 then Some (w, [])
         else if C (state w) > 0 then
           (case activate_landing_radar (state w) of (s1, out1) \<Rightarrow>
              let s2 = s1\<lparr>C := C s1 - 1\<rparr>
              in Some (w\<lparr>state := s2\<rparr>,
                       out1 @ display_status s2 (config w)
                            @ (if C s2 \<le> 0 then [FuelDepleted] else [])))
         else Some (w, [NoFuelForRadar]))
      else if command = CHR ''Y'' \<or> command = CHR ''Z'' \<or> command = CHR ''X'' then
        (if game_over w = 0 then
           (case handle_game_turn (state w) (config w) command (game_over w) of
              (s1, go, out) \<Rightarrow> Some (w\<lparr>state := s1, game_over := go\<rparr>, out))
         else Some (w, []))
      else Some (w, [UnknownCommand]))"

text \<open>
  Running the loop over a list of inputs, with the messages printed on the way; \<open>None\<close>
  once \<^verbatim>\<open>main\<close> has returned.
\<close>

fun run :: "input list \<Rightarrow> World \<Rightarrow> (World \<times> message list) option" where
  "run [] w = Some (w, [])"
| "run (i # is) w =
     (case main_step i w of
        None \<Rightarrow> None
      | Some (w1, out1) \<Rightarrow>
          (case run is w1 of None \<Rightarrow> None | Some (w2, out2) \<Rightarrow> Some (w2, out1 @ out2)))"

section \<open>Notions of the specification\<close>

text \<open>
  The terrain penalty as the specification words it, in exact arithmetic: \<open>0.2\<close> times the
  absolute terrain height at the truncated and clamped index of the horizontal position,
  when that position lies in \<open>[-100, 100]\<close>, and zero otherwise.
\<close>

definition landing_penalty :: "GameState \<Rightarrow> real" where
  "landing_penalty s =
     (if -100 \<le> A s \<and> A s \<le> 100
      then 0.2 * \<bar>terrain_height (radar s) ! nat (max 0 (min 20 (c_trunc ((A s + 100) / 10))))\<bar>
      else 0)"

text \<open>
  The same penalty in double arithmetic: the index from the rounded sum and quotient, and
  the product of the absolute height and the double \<open>0.2\<close> rounded.
\<close>

definition double_penalty :: "GameState \<Rightarrow> real" where
  "double_penalty s =
     (if -100 \<le> A s \<and> A s \<le> 100
      then fl (\<bar>terrain_height (radar s) !
                 nat (max 0 (min 20 (c_trunc (fl (fl (A s + 100) / 10)))))\<bar> * fl 0.2)
      else 0)"

text \<open>
  The direction mark that \<^verbatim>\<open>display_status\<close> prints beside the horizontal velocity
  (line 335): a positive velocity points right, toward larger \<open>A\<close>.
\<close>

definition vel_h_arrow :: "real \<Rightarrow> string" where
  "vel_h_arrow v = (if v > 0 then ''->'' else ''<-'')"

text \<open>
  A resolved turn: a burn or drift command that reaches \<^verbatim>\<open>handle_game_turn\<close> during a
  flight and is not turned away by its early return. \<open>resolved_turns\<close> counts them along
  a run of the command loop.
\<close>

definition is_resolved_turn :: "input \<Rightarrow> World \<Rightarrow> bool" where
  "is_resolved_turn i w =
     (game_over w = 0 \<and>
      (c_toupper (fst i) = CHR ''Y'' \<or> c_toupper (fst i) = CHR ''Z'' \<or> c_toupper (fst i) = CHR ''X'') \<and>
      \<not> turn_rejected (state w) (c_toupper (fst i)))"

fun resolved_turns :: "input list \<Rightarrow> World \<Rightarrow> nat" where
  "resolved_turns [] w = 0"
| "resolved_turns (i # is) w =
     (case main_step i w of
        None \<Rightarrow> 0
      | Some (w1, out1) \<Rightarrow> (if is_resolved_turn i w then 1 else 0) + resolved_turns is w1)"

text \<open>
  The recommendation as the specification words it: the candidates are the interior
  samples \<open>1..19\<close> at world \<open>x = -100 + 10 i\<close>; the score is the maximum of the safety
  scorer over them, and the coordinate is the leftmost candidate that reaches it.
\<close>

definition candidates :: "real list" where
  "candidates = map (\<lambda>i. -100 + 10 * real i) [1..<20]"

definition recommended_score :: "GameState \<Rightarrow> real" where
  "recommended_score s = Max (set (map (calculate_landing_safety s) candidates))"

definition recommended_x :: "GameState \<Rightarrow> real" where
  "recommended_x s =
     hd (filter (\<lambda>x. calculate_landing_safety s x = recommended_score s) candidates)"

text \<open>
  The radar is never left active with no turn remaining.
\<close>

definition radar_ok :: "GameState \<Rightarrow> bool" where
  "radar_ok s = (active (radar s) = 0 \<or> 0 < turns_remaining (radar s))"

section \<open>Concrete flights\<close>

definition zero_rng :: rng where
  "zero_rng = (\<lambda>n. 0, 0)"

definition with_radar :: "GameState \<Rightarrow> int \<Rightarrow> int \<Rightarrow> GameState" where
  "with_radar s a n = s\<lparr>radar := (radar s)\<lparr>active := a, turns_remaining := n\<rparr>\<rparr>"

definition flat_radar :: LandingRadar where
  "flat_radar = \<lparr>active = 0, turns_remaining = 0, terrain_height = replicate 21 0,
     safe_landing_x = -90, safe_landing_score = 100\<rparr>"

definition rough_radar :: LandingRadar where
  "rough_radar = \<lparr>active = 0, turns_remaining = 0,
     terrain_height = [1, 2, 3, 4, 5, 6, 7, 8, 9, 10, 0, 1, 0, 0, 0, 0, 0, 0, 0, 0, 0],
     safe_landing_x = 30, safe_landing_score = 100\<rparr>"

definition ridge_radar :: LandingRadar where
  "ridge_radar = \<lparr>active = 0, turns_remaining = 0,
     terrain_height = [0, 0, 0, 0, 0, 0, 0, 0, 0, 0, 3, 0, 0, 0, 0, 0, 0, 0, 0, 0, 0],
     safe_landing_x = -90, safe_landing_score = 100\<rparr>"

text \<open>The default configuration of \<^verbatim>\<open>main\<close>, with fuel \<open>5\<close>, and one with dyadic values.\<close>

definition moon_config :: GameConfig where
  "moon_config = \<lparr>gravity = fl 1.6, engine_force = 3.0, initial_fuel = 5, display_delta_v = 0\<rparr>"

definition test_config :: GameConfig where
  "test_config = \<lparr>gravity = 2, engine_force = 3, initial_fuel = 5, display_delta_v = 0\<rparr>"

definition scenario_state :: GameState where
  "scenario_state = \<lparr>A = 0, B = 100, vel_h = 0, vel_v = 0, prev_vel_h = 0, prev_vel_v = 0,
     C = 5, engines_on = 1, time_step = 1, radar = flat_radar\<rparr>"

definition scenario_turn1 :: GameState where
  "scenario_turn1 = fst (handle_game_turn scenario_state moon_config (CHR ''Y'') 0)"

definition soft_touchdown :: GameState where
  "soft_touchdown = \<lparr>A = 25, B = 0, vel_h = 1, vel_v = -1, prev_vel_h = 1, prev_vel_v = 1,
     C = 2, engines_on = 0, time_step = 1, radar = rough_radar\<rparr>"

definition hard_touchdown :: GameState where
  "hard_touchdown = \<lparr>A = 25, B = 0, vel_h = 1, vel_v = -3, prev_vel_h = 1, prev_vel_v = -1,
     C = 2, engines_on = 0, time_step = 1, radar = rough_radar\<rparr>"

text \<open>
  A touchdown on a ridge of height \<open>3\<close> with the horizontal velocity a left burn from rest
  produces, \<open>0.8999999999999999\<close>.
\<close>

definition ridge_touchdown :: GameState where
  "ridge_touchdown = \<lparr>A = 0, B = 0, vel_h = 8106479329266892 / 2 ^ 53, vel_v = 0,
     prev_vel_h = 0, prev_vel_v = 0, C = 2, engines_on = 0, time_step = 1,
     radar = ridge_radar\<rparr>"

definition scenario_world :: World where
  "scenario_world =
     \<lparr>config = moon_config, state = scenario_state, game_over = 0, seed = zero_rng\<rparr>"

definition dry_state :: GameState where
  "dry_state = \<lparr>A = 0, B = 100, vel_h = 0, vel_v = 0, prev_vel_h = 0, prev_vel_v = 0,
     C = 0, engines_on = 1, time_step = 1, radar = flat_radar\<rparr>"

definition dry_world :: World where
  "dry_world = \<lparr>config = moon_config, state = dry_state, game_over = 0, seed = zero_rng\<rparr>"

definition tracking_world :: World where
  "tracking_world = scenario_world\<lparr>state := with_radar scenario_state 1 2\<rparr>"

definition coasting_state :: GameState where
  "coasting_state = \<lparr>A = 10, B = 50, vel_h = 2, vel_v = -3, prev_vel_h = 2, prev_vel_v = -1,
     C = 3, engines_on = 0, time_step = 1,
     radar = rough_radar\<lparr>active := 1, turns_remaining := 2\<rparr>\<rparr>"

definition coasting_world :: World where
  "coasting_world =
     \<lparr>config = moon_config, state = coasting_state, game_over = 0, seed = zero_rng\<rparr>"

definition radar3_world :: World where
  "radar3_world =
     \<lparr>config = test_config, state = with_radar scenario_state 1 3, game_over = 0,
      seed = zero_rng\<rparr>"

definition two_turns :: "input list" where
  "two_turns = [(CHR ''x'', []), (CHR ''X'', [])]"

definition three_turns :: "input list" where
  "three_turns =
     [(CHR ''x'', []), (CHR ''X'', []), (CHR ''s'', []), (CHR ''z'', []), (CHR ''x'', [])]"

definition two_turns_world :: World where
  "two_turns_world = radar3_world\<lparr>state :=
     \<lparr>A = 0, B = 94, vel_h = 0, vel_v = -4, prev_vel_h = 0, prev_vel_v = -2,
      C = 5, engines_on = 1, time_step = 1,
      radar = flat_radar\<lparr>active := 1, turns_remaining := 1\<rparr>\<rparr>\<rparr>"

definition three_turns_world :: World where
  "three_turns_world = radar3_world\<lparr>state :=
     \<lparr>A = 0, B = 88, vel_h = 0, vel_v = -6, prev_vel_h = 0, prev_vel_v = -4,
      C = 5, engines_on = 0, time_step = 1, radar = flat_radar\<rparr>\<rparr>"

definition three_turns_output :: "message list" where
  "three_turns_output =
     [RadarFromPreviousPosition, RadarData, RadarVisuals, LanderStatus,
      RadarFromPreviousPosition, RadarData, RadarVisuals, LanderStatus,
      EnginesOffMsg, CannotBurn,
      RadarFromPreviousPosition, RadarData, SignalLost, LanderStatus]"

definition fresh_flight :: "input list" where
  "fresh_flight = [(CHR ''v'', []), (CHR ''r'', []), (CHR ''x'', [])]"

section \<open>Rounding: order, symmetry and exact cases\<close>

lemma rne_of_int [simp]: "rne (real_of_int n) = n"
  by (simp add: rne_def)

lemma rne_bounds: "q - 1/2 \<le> real_of_int (rne q)" "real_of_int (rne q) \<le> q + 1/2"
  unfolding rne_def Let_def by (auto; linarith)+

lemma rne_floor_cases: "rne q = \<lfloor>q\<rfloor> \<or> rne q = \<lfloor>q\<rfloor> + 1"
  by (simp add: rne_def Let_def)

lemma rne_mono:
  assumes "q \<le> r"
  shows "rne q \<le> rne r"
proof (cases "\<lfloor>q\<rfloor> = \<lfloor>r\<rfloor>")
  case True
  with assms show ?thesis
    unfolding rne_def Let_def by (auto; linarith?)
next
  case False
  with assms have "\<lfloor>q\<rfloor> < \<lfloor>r\<rfloor>"
    using floor_mono [OF assms] by linarith
  then have "\<lfloor>q\<rfloor> + 1 \<le> \<lfloor>r\<rfloor>"
    by simp
  moreover have "rne q \<le> \<lfloor>q\<rfloor> + 1"
    using rne_floor_cases [of q] by auto
  moreover have "\<lfloor>r\<rfloor> \<le> rne r"
    using rne_floor_cases [of r] by auto
  ultimately show ?thesis
    by linarith
qed

lemma rne_minus: "rne (- q) = - rne q"
proof (cases "q = real_of_int \<lfloor>q\<rfloor>")
  case True
  then obtain n where "q = real_of_int n"
    by blast
  then have "rne (- q) = rne (real_of_int (- n))" "rne q = n"
    by simp_all
  then show ?thesis
    by (simp only: rne_of_int)
next
  case False
  then have c: "\<lfloor>- q\<rfloor> = - \<lfloor>q\<rfloor> - 1"
    by (metis ceiling_altdef ceiling_def add_diff_cancel_right' minus_diff_eq
        uminus_add_conv_diff)
  show ?thesis
    unfolding rne_def Let_def c by (auto; linarith?)
qed


lemma pow2_pos [simp]: "0 < (2::real) powi e"
  by (simp add: power_int_def)

lemma pow2_powr: "2 powr real_of_int n = (2::real) powi n"
  by (rule powr_real_of_int') simp_all

lemma pow2_powr_Suc: "2 powr (real_of_int n + 1) = (2::real) powi (n + 1)"
  using pow2_powr [of "n + 1"] by simp

lemma binade_bounds:
  assumes "x \<noteq> 0"
  shows "2 powi \<lfloor>log 2 \<bar>x\<bar>\<rfloor> \<le> \<bar>x\<bar>" and "\<bar>x\<bar> < 2 powi (\<lfloor>log 2 \<bar>x\<bar>\<rfloor> + 1)"
proof -
  from assms have pos: "0 < \<bar>x\<bar>"
    by simp
  have "2 powr real_of_int \<lfloor>log 2 \<bar>x\<bar>\<rfloor> \<le> \<bar>x\<bar> \<and>
        \<bar>x\<bar> < 2 powr (real_of_int \<lfloor>log 2 \<bar>x\<bar>\<rfloor> + 1)"
    using floor_log_eq_powr_iff [OF pos, of 2 "\<lfloor>log 2 \<bar>x\<bar>\<rfloor>"] by simp
  then show "2 powi \<lfloor>log 2 \<bar>x\<bar>\<rfloor> \<le> \<bar>x\<bar>" and "\<bar>x\<bar> < 2 powi (\<lfloor>log 2 \<bar>x\<bar>\<rfloor> + 1)"
    by (simp_all only: pow2_powr pow2_powr_Suc)
qed

lemma floor_log2_eqI:
  assumes "2 powi e \<le> \<bar>x\<bar>" and "\<bar>x\<bar> < 2 powi (e + 1)"
  shows "\<lfloor>log 2 \<bar>x\<bar>\<rfloor> = e"
proof -
  from assms(1) have pos: "0 < \<bar>x\<bar>"
    using pow2_pos [of e] by linarith
  from assms have "2 powr real_of_int e \<le> \<bar>x\<bar> \<and> \<bar>x\<bar> < 2 powr (real_of_int e + 1)"
    by (simp only: pow2_powr pow2_powr_Suc)
  then show ?thesis
    using floor_log_eq_powr_iff [OF pos, of 2 e] by simp
qed

lemma fl_eval:
  assumes "2 powi e \<le> \<bar>x\<bar>" and "\<bar>x\<bar> < 2 powi (e + 1)" and "- 1022 \<le> e"
  shows "fl x = real_of_int (rne (x / 2 powi (e - 52))) * 2 powi (e - 52)"
proof -
  from assms(1) have "0 < \<bar>x\<bar>"
    using pow2_pos [of e] by linarith
  then have "x \<noteq> 0"
    by simp
  moreover from floor_log2_eqI [OF assms(1,2)] assms(3) have "binade x = e"
    by (simp add: binade_def)
  ultimately show ?thesis
    by (simp add: fl_def)
qed

lemma binade_minus [simp]: "binade (- x) = binade x"
  by (simp add: binade_def)

lemma fl_zero [simp]: "fl 0 = 0"
  by (simp add: fl_def)

lemma fl_minus: "fl (- x) = - fl x"
  by (simp add: fl_def rne_minus)

lemma fl_nonneg:
  assumes "0 \<le> x"
  shows "0 \<le> fl x"
proof -
  have "0 \<le> x / 2 powi (binade x - 52)"
    using assms by simp
  from rne_mono [OF this] have "0 \<le> rne (x / 2 powi (binade x - 52))"
    using rne_of_int [of 0] by simp
  then show ?thesis
    by (simp add: fl_def)
qed


lemma pow2_add: "(2::real) powi (a + b) = 2 powi a * 2 powi b"
  by (simp add: power_int_add)

lemma pow2_mono: "a \<le> b \<Longrightarrow> (2::real) powi a \<le> 2 powi b"
  by (rule power_int_increasing) simp_all

lemma binade_mono:
  assumes "0 < x" and "x \<le> y"
  shows "binade x \<le> binade y"
proof -
  from assms have "log 2 \<bar>x\<bar> \<le> log 2 \<bar>y\<bar>"
    by simp
  then have "\<lfloor>log 2 \<bar>x\<bar>\<rfloor> \<le> \<lfloor>log 2 \<bar>y\<bar>\<rfloor>"
    by (rule floor_mono)
  then show ?thesis
    by (simp add: binade_def)
qed

lemma pow2_split: "(2::real) powi (e + 1) = 2 ^ 53 * 2 powi (e - 52)"
  "(2::real) powi e = 2 ^ 52 * 2 powi (e - 52)"
  using pow2_add [of 53 "e - 52"] pow2_add [of 52 "e - 52"]
  by (simp_all add: algebra_simps)

lemma fl_upper:
  assumes "0 < x"
  shows "fl x \<le> 2 powi (binade x + 1)"
proof -
  let ?e = "binade x"
  let ?u = "(2::real) powi (?e - 52)"
  from assms have nz: "x \<noteq> 0"
    by simp
  have "\<lfloor>log 2 \<bar>x\<bar>\<rfloor> + 1 \<le> ?e + 1"
    by (simp add: binade_def)
  from binade_bounds(2) [OF nz] pow2_mono [OF this] assms have "x \<le> 2 powi (?e + 1)"
    by simp
  then have "x \<le> 2 ^ 53 * ?u"
    by (simp only: pow2_split(1))
  then have "x / ?u \<le> real_of_int (2 ^ 53)"
    by (simp add: pos_divide_le_eq)
  from rne_mono [OF this] have "rne (x / ?u) \<le> 2 ^ 53"
    by (simp only: rne_of_int)
  then have "real_of_int (rne (x / ?u)) \<le> real_of_int (2 ^ 53)"
    by (simp only: of_int_le_iff)
  then have "real_of_int (rne (x / ?u)) * ?u \<le> real_of_int (2 ^ 53) * ?u"
    by (rule mult_right_mono) simp
  then have "real_of_int (rne (x / ?u)) * ?u \<le> 2 powi (?e + 1)"
    by (simp add: pow2_split(1) [of ?e])
  then show ?thesis
    using nz by (simp add: fl_def)
qed

lemma fl_lower:
  assumes "0 < x" and "- 1022 < binade x"
  shows "2 powi (binade x) \<le> fl x"
proof -
  let ?e = "binade x"
  let ?u = "(2::real) powi (?e - 52)"
  from assms have nz: "x \<noteq> 0"
    by simp
  from assms(2) have "?e = \<lfloor>log 2 \<bar>x\<bar>\<rfloor>"
    by (simp add: binade_def max_def split: if_splits)
  with binade_bounds(1) [OF nz] assms(1) have "2 powi ?e \<le> x"
    by simp
  then have "2 ^ 52 * ?u \<le> x"
    using pow2_split(2) [of ?e] by simp
  then have "real_of_int (2 ^ 52) \<le> x / ?u"
    by (simp add: pos_le_divide_eq)
  from rne_mono [OF this] have "2 ^ 52 \<le> rne (x / ?u)"
    by (simp only: rne_of_int)
  then have "real_of_int (2 ^ 52) \<le> real_of_int (rne (x / ?u))"
    by (simp only: of_int_le_iff)
  then have "real_of_int (2 ^ 52) * ?u \<le> real_of_int (rne (x / ?u)) * ?u"
    by (rule mult_right_mono) simp
  then have "2 powi ?e \<le> real_of_int (rne (x / ?u)) * ?u"
    using pow2_split(2) [of ?e] by simp
  then show ?thesis
    using nz by (simp add: fl_def)
qed

lemma fl_mono_pos:
  assumes "0 < x" and "x \<le> y"
  shows "fl x \<le> fl y"
proof (cases "binade x = binade y")
  case True
  let ?u = "(2::real) powi (binade y - 52)"
  from assms have "x / ?u \<le> y / ?u"
    by (simp add: divide_right_mono)
  from rne_mono [OF this] have "real_of_int (rne (x / ?u)) * ?u \<le> real_of_int (rne (y / ?u)) * ?u"
    by (simp add: mult_right_mono)
  with assms True show ?thesis
    by (simp add: fl_def)
next
  case False
  with binade_mono [OF assms] have lt: "binade x < binade y"
    by simp
  have "- 1022 \<le> binade x"
    by (simp add: binade_def)
  with lt have big: "- 1022 < binade y"
    by simp
  from assms have ypos: "0 < y"
    by simp
  from lt have "binade x + 1 \<le> binade y"
    by simp
  from fl_upper [OF assms(1)] pow2_mono [OF this] fl_lower [OF ypos big] show ?thesis
    by linarith
qed

lemma fl_mono:
  assumes "x \<le> y"
  shows "fl x \<le> fl y"
proof -
  consider (pos) "0 < x" | (neg) "y < 0" | (mid) "x \<le> 0" "0 \<le> y"
    by linarith
  then show ?thesis
  proof cases
    case pos
    from fl_mono_pos [OF pos assms] show ?thesis .
  next
    case neg
    with assms have "0 < - y" "- y \<le> - x"
      by simp_all
    from fl_mono_pos [OF this] show ?thesis
      by (simp add: fl_minus)
  next
    case mid
    from mid(1) have "0 \<le> fl (- x)"
      by (intro fl_nonneg) simp
    with fl_nonneg [OF mid(2)] show ?thesis
      by (simp add: fl_minus)
  qed
qed

lemma fl_dyadic:
  assumes "n \<noteq> 0" and "\<bar>n\<bar> < 2 ^ 53" and "k \<le> 1022"
  shows "fl (real_of_int n / 2 ^ k) = real_of_int n / 2 ^ k"
proof -
  define x where "x = real_of_int n / 2 ^ k"
  define e where "e = \<lfloor>log 2 \<bar>x\<bar>\<rfloor>"
  define u where "u = (2::real) powi (e - 52)"
  from assms(1) have nz: "x \<noteq> 0"
    by (simp add: x_def)
  from assms(1) have "1 \<le> \<bar>n\<bar>"
    by simp
  then have "real_of_int 1 \<le> real_of_int \<bar>n\<bar>"
    by (simp only: of_int_le_iff)
  then have "1 \<le> \<bar>real_of_int n\<bar>"
    by simp
  then have lo: "2 powi (- int k) \<le> \<bar>x\<bar>"
    by (simp add: x_def power_int_minus field_simps)
  from assms(2) have "real_of_int \<bar>n\<bar> < real_of_int (2 ^ 53)"
    by (simp only: of_int_less_iff)
  then have "\<bar>real_of_int n\<bar> < 2 ^ 53"
    by simp
  then have hi: "\<bar>x\<bar> < 2 powi (53 - int k)"
    by (simp add: x_def power_int_diff field_simps)
  have e_lo: "- int k \<le> e"
  proof (rule ccontr)
    assume "\<not> - int k \<le> e"
    then have "e + 1 \<le> - int k"
      by simp
    from binade_bounds(2) [OF nz] pow2_mono [OF this] lo show False
      unfolding e_def by linarith
  qed
  have e_hi: "e \<le> 52 - int k"
  proof (rule ccontr)
    assume "\<not> e \<le> 52 - int k"
    then have "53 - int k \<le> e"
      by simp
    from binade_bounds(1) [OF nz] pow2_mono [OF this] hi show False
      unfolding e_def by linarith
  qed
  from e_lo assms(3) have b: "binade x = e"
    by (simp add: binade_def e_def)
  define m where "m = nat (52 - int k - e)"
  with e_hi have m: "int m + (e - 52) + int k = 0"
    by simp
  have "2 powi (int m) * u * (2::real) powi (int k) = 2 powi (int m + (e - 52) + int k)"
    by (simp only: pow2_add u_def)
  with m have "2 ^ m * u * (2::real) ^ k = 1"
    by simp
  then have u: "u = 1 / (2 ^ m * (2::real) ^ k)"
    by (simp add: field_simps)
  have "x / u = real_of_int (n * 2 ^ m)"
    by (simp add: u x_def)
  then have "rne (x / u) = n * 2 ^ m"
    by (simp only: rne_of_int)
  then have "real_of_int (rne (x / u)) * u = x"
    by (simp add: u x_def)
  with nz b have "fl x = x"
    by (simp add: fl_def u_def)
  then show ?thesis
    by (simp only: x_def)
qed

lemma fl_of_int:
  assumes "\<bar>n\<bar> < 2 ^ 53"
  shows "fl (real_of_int n) = real_of_int n"
proof (cases "n = 0")
  case True
  then show ?thesis by simp
next
  case False
  from fl_dyadic [OF False assms, of 0] show ?thesis
    by simp
qed

lemma fl_numeral [simp]:
  "numeral k < (9007199254740992::int) \<Longrightarrow> fl (numeral k) = numeral k"
  using fl_of_int [of "numeral k"] by simp

lemma fl_one [simp]: "fl 1 = 1"
  using fl_of_int [of 1] by simp

lemma fl_half [simp]:
  "numeral k < (9007199254740992::int) \<Longrightarrow> fl (numeral k / 2) = numeral k / 2"
  using fl_dyadic [of "numeral k" 1] by simp

lemma fl_one_half [simp]: "fl (1/2) = 1/2"
  using fl_dyadic [of 1 1] by simp

lemma fl_100: "fl 100 = 100"
  by simp

section \<open>Rounding: the values of the scenarios\<close>

text \<open>
  The doubles denoted by the decimal constants, and the rounded results met below. A
  number \<open>m / 2 ^ k\<close> with \<open>m\<close> below \<open>2^53\<close> is a double.
\<close>

lemma fl_evalI:
  assumes "2 powi e \<le> \<bar>x\<bar>" and "\<bar>x\<bar> < 2 powi (e + 1)" and "- 1022 \<le> e"
    and "rne (x / 2 powi (e - 52)) = m" and "real_of_int m * 2 powi (e - 52) = y"
  shows "fl x = y"
  using fl_eval [OF assms(1-3)] assms(4,5) by simp

lemma fl_0_2: "fl (2/10) = 7205759403792794 / 2 ^ 55"
  by (rule fl_evalI [where e = "- 3" and m = 7205759403792794])
    (simp_all add: rne_def power_int_minus)

lemma fl_0_3: "fl (3/10) = 5404319552844595 / 2 ^ 54"
  by (rule fl_evalI [where e = "- 2" and m = 5404319552844595])
    (simp_all add: rne_def power_int_minus)

lemma fl_0_9: "fl (9/10) = 8106479329266893 / 2 ^ 53"
  by (rule fl_evalI [where e = "- 1" and m = 8106479329266893])
    (simp_all add: rne_def power_int_minus)

lemma fl_1_4: "fl (14/10) = 6305039478318694 / 2 ^ 52"
  by (rule fl_evalI [where e = 0 and m = 6305039478318694])
    (simp_all add: rne_def power_int_minus)

lemma fl_1_6: "fl (16/10) = 7205759403792794 / 2 ^ 52"
  by (rule fl_evalI [where e = 0 and m = 7205759403792794])
    (simp_all add: rne_def power_int_minus)

lemma ridge_penalty: "fl (3 * (7205759403792794 / 2 ^ 55)) = 5404319552844596 / 2 ^ 53"
  by (rule fl_evalI [where e = "- 1" and m = 5404319552844596])
    (simp_all add: rne_def power_int_minus)

lemma ridge_horizontal_bound:
  "fl (15/10 - 5404319552844596 / 2 ^ 53) = 8106479329266892 / 2 ^ 53"
  by (rule fl_evalI [where e = "- 1" and m = 8106479329266892])
    (simp_all add: rne_def power_int_minus)

lemma ridge_vertical_bound:
  "fl (20/10 - 5404319552844596 / 2 ^ 53) = 6305039478318694 / 2 ^ 52"
  by (rule fl_evalI [where e = 0 and m = 6305039478318694])
    (simp_all add: rne_def power_int_minus)

lemma lateral_thrust: "fl (3 * (5404319552844595 / 2 ^ 54)) = 8106479329266892 / 2 ^ 53"
  by (rule fl_evalI [where e = "- 1" and m = 8106479329266892])
    (simp_all add: rne_def power_int_minus)

lemma climb_rate: "fl (- (7205759403792794 / 2 ^ 52) + 3) = 6305039478318694 / 2 ^ 52"
  by (rule fl_evalI [where e = 0 and m = 6305039478318694])
    (simp_all add: rne_def power_int_minus)

lemma fl_gravity: "fl (7205759403792794 / 2 ^ 52) = 7205759403792794 / 2 ^ 52"
  using fl_dyadic [of 7205759403792794 52] by simp

lemma fl_lateral: "fl (8106479329266892 / 2 ^ 53) = 8106479329266892 / 2 ^ 53"
  using fl_dyadic [of 8106479329266892 53] by simp


section \<open>Landing evaluator: classification\<close>

lemma check_landing_ground:
  "B s \<le> 0 \<Longrightarrow> check_landing s =
     (if \<bar>vel_v s\<bar> < fl (2.0 - double_penalty s) \<and> \<bar>vel_h s\<bar> < fl (1.5 - double_penalty s)
      then 1 else -1)"
  by (simp add: check_landing_def double_penalty_def Let_def SAFE_VERTICAL_SPEED_def
      SAFE_HORIZONTAL_SPEED_def max_def min_def)

lemma check_landing_airborne: "0 < B s \<Longrightarrow> check_landing s = 0"
  by (simp add: check_landing_def)

lemma ridge_double_penalty: "double_penalty ridge_touchdown = 5404319552844596 / 2 ^ 53"
proof -
  have "double_penalty ridge_touchdown = fl (3 * fl (2/10))"
    by (simp add: double_penalty_def ridge_touchdown_def ridge_radar_def c_trunc_def)
  then show ?thesis
    by (simp only: fl_0_2 ridge_penalty)
qed

lemma check_landing_ridge: "check_landing ridge_touchdown = - 1"
proof -
  have b: "B ridge_touchdown \<le> 0"
    by (simp add: ridge_touchdown_def)
  have h: "fl (1.5 - double_penalty ridge_touchdown) = 8106479329266892 / 2 ^ 53"
    by (simp only: ridge_double_penalty ridge_horizontal_bound)
  have "\<not> \<bar>vel_h ridge_touchdown\<bar> < fl (1.5 - double_penalty ridge_touchdown)"
    unfolding h by (simp add: ridge_touchdown_def)
  with check_landing_ground [OF b] show ?thesis
    by simp
qed

lemma ridge_exact_bounds:
  "\<bar>vel_v ridge_touchdown\<bar> < 2.0 - landing_penalty ridge_touchdown \<and>
   \<bar>vel_h ridge_touchdown\<bar> < 1.5 - landing_penalty ridge_touchdown"
  by (simp add: landing_penalty_def ridge_touchdown_def ridge_radar_def c_trunc_def)

text \<open>
  Claim C1, as the code has it. At altitude \<open>\<le> 0\<close> the landing evaluator returns success
  (\<open>1\<close>) exactly when \<open>|vel_v| < fl (2.0 - p)\<close> and \<open>|vel_h| < fl (1.5 - p)\<close>, where \<open>p\<close> is
  the terrain penalty computed in double arithmetic (\<open>double_penalty\<close>) and both bounds are
  the rounded differences; when either bound is violated it returns crash (\<open>-1\<close>); at
  altitude \<open>> 0\<close> it returns still-flying (\<open>0\<close>).
\<close>

theorem check_landing_classification:
  "(B s \<le> 0 \<longrightarrow>
      (check_landing s = 1 \<longleftrightarrow>
         \<bar>vel_v s\<bar> < fl (2.0 - double_penalty s) \<and> \<bar>vel_h s\<bar> < fl (1.5 - double_penalty s)) \<and>
      (check_landing s = -1 \<longleftrightarrow>
         \<not> (\<bar>vel_v s\<bar> < fl (2.0 - double_penalty s) \<and>
            \<bar>vel_h s\<bar> < fl (1.5 - double_penalty s)))) \<and>
   (0 < B s \<longrightarrow> check_landing s = 0)"
  by (simp add: check_landing_ground check_landing_airborne)

lemma soft_double_penalty: "double_penalty soft_touchdown = 0"
  by (simp add: double_penalty_def soft_touchdown_def rough_radar_def c_trunc_def)

lemma hard_double_penalty: "double_penalty hard_touchdown = 0"
  by (simp add: double_penalty_def hard_touchdown_def rough_radar_def c_trunc_def)

theorem check_landing_classification_witness:
  "B soft_touchdown \<le> 0 \<and> double_penalty soft_touchdown = 0 \<and>
   check_landing soft_touchdown = 1 \<and>
   B hard_touchdown \<le> 0 \<and> \<not> \<bar>vel_v hard_touchdown\<bar> < fl (2.0 - double_penalty hard_touchdown) \<and>
   check_landing hard_touchdown = -1 \<and>
   B ridge_touchdown \<le> 0 \<and> double_penalty ridge_touchdown = 5404319552844596 / 2 ^ 53 \<and>
   fl (1.5 - double_penalty ridge_touchdown) = 8106479329266892 / 2 ^ 53 \<and>
   check_landing ridge_touchdown = -1 \<and>
   0 < B scenario_state \<and> check_landing scenario_state = 0"
proof -
  have soft: "B soft_touchdown \<le> 0" "\<bar>vel_v soft_touchdown\<bar> = 1" "\<bar>vel_h soft_touchdown\<bar> = 1"
    and hard: "B hard_touchdown \<le> 0" "\<bar>vel_v hard_touchdown\<bar> = 3"
    and ridge: "B ridge_touchdown \<le> 0"
    and fly: "0 < B scenario_state"
    by (simp_all add: soft_touchdown_def hard_touchdown_def ridge_touchdown_def
        scenario_state_def)
  have h: "fl (1.5 - double_penalty ridge_touchdown) = 8106479329266892 / 2 ^ 53"
    by (simp only: ridge_double_penalty ridge_horizontal_bound)
  from check_landing_classification [of soft_touchdown]
    check_landing_classification [of hard_touchdown]
    check_landing_classification [of ridge_touchdown]
    check_landing_classification [of scenario_state]
    soft hard ridge fly soft_double_penalty hard_double_penalty ridge_double_penalty h
    check_landing_ridge
  show ?thesis
    by (simp add: fl_half)
qed

text \<open>
  With the bounds of the claim taken in exact arithmetic the equivalence fails: on the
  ridge of height \<open>3\<close> the exact bound is \<open>1.5 - 0.6 = 0.9\<close> and the horizontal velocity
  \<open>0.8999999999999999\<close> is below it, but the program computes the penalty
  \<open>0.6000000000000001\<close> and the bound \<open>0.8999999999999999\<close>, and reports a crash.
\<close>

theorem check_landing_exact_counterexample:
  "B ridge_touchdown \<le> 0 \<and>
   \<not> (check_landing ridge_touchdown = 1 \<longleftrightarrow>
        \<bar>vel_v ridge_touchdown\<bar> < 2.0 - landing_penalty ridge_touchdown \<and>
        \<bar>vel_h ridge_touchdown\<bar> < 1.5 - landing_penalty ridge_touchdown)"
  using ridge_exact_bounds check_landing_ridge
  by (simp add: ridge_touchdown_def)

section \<open>Safety scorer: range\<close>

lemma score_step1: "fl (100 - fl (\<bar>a\<bar> * 10)) \<le> 100"
proof -
  have "0 \<le> fl (\<bar>a\<bar> * 10)"
    by (rule fl_nonneg) simp
  then have "100 - fl (\<bar>a\<bar> * 10) \<le> 100"
    by simp
  from fl_mono [OF this] show ?thesis
    by simp
qed

lemma score_step2:
  assumes "s1 \<le> 100"
  shows "fl (s1 - fl (fl (\<bar>b\<bar> + \<bar>c\<bar>) * 5)) \<le> 100"
proof -
  have "0 \<le> fl (\<bar>b\<bar> + \<bar>c\<bar>)"
    by (rule fl_nonneg) simp
  then have "0 \<le> fl (fl (\<bar>b\<bar> + \<bar>c\<bar>) * 5)"
    by (intro fl_nonneg) simp
  with assms have "s1 - fl (fl (\<bar>b\<bar> + \<bar>c\<bar>) * 5) \<le> 100"
    by simp
  from fl_mono [OF this] show ?thesis
    by simp
qed

lemma calculate_landing_safety_le: "calculate_landing_safety s x \<le> 100"
  unfolding calculate_landing_safety_def Let_def
  by (simp add: score_step1 score_step2)

lemma calculate_landing_safety_ge: "0 \<le> calculate_landing_safety s x"
  by (simp add: calculate_landing_safety_def Let_def)

text \<open>
  Claim C2. For every state and every world coordinate \<open>x\<close> the safety score lies in
  \<open>[0, 100]\<close>, and when \<open>x\<close> does not map to a terrain index in \<open>0..20\<close> the score is
  exactly \<open>0\<close>.
\<close>

theorem landing_safety_range:
  "0 \<le> calculate_landing_safety s x \<and> calculate_landing_safety s x \<le> 100 \<and>
   (\<not> (0 \<le> terrain_index x \<and> terrain_index x \<le> 20) \<longrightarrow> calculate_landing_safety s x = 0)"
  using calculate_landing_safety_le [of s x] calculate_landing_safety_ge [of s x]
  by (simp add: calculate_landing_safety_def Let_def)

theorem landing_safety_range_witness:
  "\<not> (0 \<le> terrain_index 250 \<and> terrain_index 250 \<le> 20) \<and>
   calculate_landing_safety soft_touchdown 250 = 0 \<and>
   \<not> (0 \<le> terrain_index (-115) \<and> terrain_index (-115) \<le> 20) \<and>
   calculate_landing_safety soft_touchdown (-115) = 0"
  using landing_safety_range [of soft_touchdown 250] landing_safety_range [of soft_touchdown "-115"]
  by (simp add: terrain_index_def c_trunc_def fl_minus)

text \<open>
  The index is obtained by truncation toward zero, so coordinates a little outside
  \<open>[-100, 100]\<close> still map to the valid indices \<open>0\<close> and \<open>20\<close> and are scored there.
\<close>

lemma landing_safety_just_outside:
  "terrain_index (-105) = 0 \<and> calculate_landing_safety soft_touchdown (-105) = 90 \<and>
   terrain_index 105 = 20 \<and> calculate_landing_safety soft_touchdown 105 = 100"
  by (simp add: calculate_landing_safety_def terrain_index_def c_trunc_def soft_touchdown_def
      rough_radar_def fl_minus)


text \<open>
  Rounding decides the index next to a boundary: for the double just below \<open>110\<close>, the sum
  with \<open>100\<close> rounds up to \<open>210\<close>, the index is \<open>21\<close> and the score is \<open>0\<close>.
\<close>

lemma landing_safety_rounded_out:
  "terrain_index (110 - 1 / 2 ^ 46) = 21 \<and>
   calculate_landing_safety soft_touchdown (110 - 1 / 2 ^ 46) = 0"
proof -
  have "fl (110 - 1 / 2 ^ 46 + 100) = 210"
    by (rule fl_evalI [where e = 7 and m = 7388718138654720])
      (simp_all add: rne_def power_int_minus)
  then have "terrain_index (110 - 1 / 2 ^ 46) = 21"
    by (simp add: terrain_index_def c_trunc_def)
  then show ?thesis
    by (simp add: calculate_landing_safety_def)
qed

section \<open>Turns: physics and fuel\<close>

lemma update_physics_C [simp]: "C (update_physics s cfg cmd) = C s"
  by (simp add: update_physics_def Let_def)

lemma update_physics_radar [simp]: "radar (update_physics s cfg cmd) = radar s"
  by (simp add: update_physics_def Let_def)

lemma update_physics_engines_on [simp]: "engines_on (update_physics s cfg cmd) = engines_on s"
  by (simp add: update_physics_def Let_def)

lemma update_physics_time_step [simp]: "time_step (update_physics s cfg cmd) = time_step s"
  by (simp add: update_physics_def Let_def)

lemma update_physics_vel_v:
  "vel_v (update_physics s cfg cmd) =
     (if engines_on s \<noteq> 0 \<and> (cmd = CHR ''Y'' \<or> cmd = CHR ''Z'')
      then fl (fl (vel_v s - fl (gravity cfg * time_step s)) + fl (engine_force cfg * time_step s))
      else fl (vel_v s - fl (gravity cfg * time_step s)))"
  by (simp add: update_physics_def Let_def)

lemma update_physics_vel_h:
  "vel_h (update_physics s cfg cmd) =
     (if engines_on s \<noteq> 0 \<and> cmd = CHR ''Y''
      then fl (vel_h s + fl (fl (engine_force cfg * time_step s) * fl 0.3))
      else if engines_on s \<noteq> 0 \<and> cmd = CHR ''Z''
      then fl (vel_h s - fl (fl (engine_force cfg * time_step s) * fl 0.3))
      else vel_h s)"
  by (simp add: update_physics_def Let_def)

lemma radar_decay_frame [simp]:
  "vel_h (fst (radar_decay s)) = vel_h s"
  "vel_v (fst (radar_decay s)) = vel_v s"
  "C (fst (radar_decay s)) = C s"
  "engines_on (fst (radar_decay s)) = engines_on s"
  by (simp_all add: radar_decay_def Let_def)

lemma turn_prologue_frame [simp]:
  "radar (fst (turn_prologue s cmd)) = radar s"
  "C (fst (turn_prologue s cmd)) = C s"
  "vel_h (fst (turn_prologue s cmd)) = vel_h s"
  "vel_v (fst (turn_prologue s cmd)) = vel_v s"
  "time_step (fst (turn_prologue s cmd)) = time_step s"
  by (simp_all add: turn_prologue_def)

lemma physics_and_fuel_frame [simp]:
  "radar (physics_and_fuel s cfg cmd) = radar s"
  "engines_on (physics_and_fuel s cfg cmd) = engines_on s"
  "vel_h (physics_and_fuel s cfg cmd) = vel_h (update_physics s cfg cmd)"
  "vel_v (physics_and_fuel s cfg cmd) = vel_v (update_physics s cfg cmd)"
  by (simp_all add: physics_and_fuel_def Let_def)

lemma physics_and_fuel_C:
  "C (physics_and_fuel s cfg cmd) = (if cmd \<noteq> CHR ''X'' then C s - 1 else C s)"
  by (simp add: physics_and_fuel_def Let_def)

lemma turn_rejected_iff:
  "turn_rejected s cmd \<longleftrightarrow>
     0 < C s \<and> (cmd = CHR ''Y'' \<or> cmd = CHR ''Z'') \<and> engines_on s = 0"
  by (auto simp add: turn_rejected_def turn_prologue_def)

lemma handle_game_turn_rejected:
  "turn_rejected s cmd \<Longrightarrow> handle_game_turn s cfg cmd go = (s, go, [CannotBurn])"
  by (auto simp add: turn_rejected_iff handle_game_turn_def turn_prologue_def)

lemma handle_game_turn_state:
  "\<not> turn_rejected s cmd \<Longrightarrow>
   fst (handle_game_turn s cfg cmd go) =
     fst (radar_decay (physics_and_fuel (fst (turn_prologue s cmd)) cfg
            (fst (snd (turn_prologue s cmd)))))"
proof -
  assume resolved: "\<not> turn_rejected s cmd"
  obtain s1 c1 out1 where p: "turn_prologue s cmd = (s1, c1, out1)"
    by (cases "turn_prologue s cmd") auto
  obtain s4 out3 where d: "radar_decay (physics_and_fuel s1 cfg c1) = (s4, out3)"
    by (cases "radar_decay (physics_and_fuel s1 cfg c1)") auto
  from resolved p have "\<not> ((c1 = CHR ''Y'' \<or> c1 = CHR ''Z'') \<and> engines_on s1 = 0)"
    by (simp add: turn_rejected_def)
  then show ?thesis
    by (auto simp add: handle_game_turn_def p d Let_def)
qed

lemma burn_turn_state:
  assumes "C s > 0" "engines_on s \<noteq> 0" "cmd = CHR ''Y'' \<or> cmd = CHR ''Z''"
  shows "fst (handle_game_turn s cfg cmd go) = fst (radar_decay (physics_and_fuel s cfg cmd))"
proof -
  from assms have "\<not> turn_rejected s cmd"
    by (simp add: turn_rejected_iff)
  moreover from assms have "turn_prologue s cmd = (s, cmd, [])"
    by (simp add: turn_prologue_def)
  ultimately show ?thesis
    using handle_game_turn_state [of s cmd cfg go] by simp
qed

lemma burn_left_velocities:
  "fl (fl (0 - fl (fl 1.6 * 1)) + fl (3.0 * 1)) = 6305039478318694 / 2 ^ 52"
  "fl (0 + fl (fl (3.0 * 1) * fl 0.3)) = 8106479329266892 / 2 ^ 53"
proof -
  have "fl (fl (0 - fl (fl 1.6 * 1)) + fl (3.0 * 1)) =
          fl (fl (- fl (fl (16/10))) + fl 3)"
    by simp
  also have "\<dots> = fl (- (7205759403792794 / 2 ^ 52) + 3)"
    by (simp only: fl_1_6 fl_gravity fl_minus) simp
  also have "\<dots> = 6305039478318694 / 2 ^ 52"
    by (rule climb_rate)
  finally show "fl (fl (0 - fl (fl 1.6 * 1)) + fl (3.0 * 1)) = 6305039478318694 / 2 ^ 52" .
  have "fl (0 + fl (fl (3.0 * 1) * fl 0.3)) = fl (fl (fl 3 * fl (3/10)))"
    by simp
  also have "\<dots> = fl (fl (3 * (5404319552844595 / 2 ^ 54)))"
    by (simp only: fl_0_3) simp
  also have "\<dots> = 8106479329266892 / 2 ^ 53"
    by (simp only: lateral_thrust fl_lateral)
  finally show "fl (0 + fl (fl (3.0 * 1) * fl 0.3)) = 8106479329266892 / 2 ^ 53" .
qed

text \<open>
  Claim C3, as the code has it. With gravity the double \<open>1.6\<close>, engine force \<open>3.0\<close>, fuel
  \<open>5\<close>, zero velocity, engines on and a turn duration of \<open>1\<close>, one burn-left turn (command
  \<open>Y\<close>) gives as vertical velocity the double \<open>1.4\<close>, which is the rounded \<open>-1.6 + 3.0\<close>;
  as horizontal velocity the rounded product of \<open>3.0\<close> and the double \<open>0.3\<close>, which is
  \<open>8106479329266892 / 2^53 = 0.8999999999999999\<close>, one unit in the last place below the
  double \<open>0.9\<close>, and positive: the lander moves toward larger \<open>A\<close>, which the status
  display marks \<open>->\<close>; and fuel \<open>4\<close>.
\<close>

theorem burn_left_first_turn:
  assumes "gravity cfg = fl 1.6" "engine_force cfg = 3.0" "C s = 5" "vel_h s = 0" "vel_v s = 0"
    "engines_on s \<noteq> 0" "time_step s = 1"
  shows "vel_v (fst (handle_game_turn s cfg (CHR ''Y'') go)) = fl 1.4 \<and>
         vel_h (fst (handle_game_turn s cfg (CHR ''Y'') go)) = 8106479329266892 / 2 ^ 53 \<and>
         vel_h (fst (handle_game_turn s cfg (CHR ''Y'') go)) = fl 0.9 - 1 / 2 ^ 53 \<and>
         vel_h_arrow (vel_h (fst (handle_game_turn s cfg (CHR ''Y'') go))) = ''->'' \<and>
         C (fst (handle_game_turn s cfg (CHR ''Y'') go)) = 4"
proof -
  have t: "fst (handle_game_turn s cfg (CHR ''Y'') go) =
          fst (radar_decay (physics_and_fuel s cfg (CHR ''Y'')))"
    using assms by (intro burn_turn_state) simp_all
  have v: "vel_v (fst (handle_game_turn s cfg (CHR ''Y'') go)) = 6305039478318694 / 2 ^ 52"
    using assms burn_left_velocities(1)
    by (simp add: t update_physics_vel_v)
  have h: "vel_h (fst (handle_game_turn s cfg (CHR ''Y'') go)) = 8106479329266892 / 2 ^ 53"
    using assms burn_left_velocities(2)
    by (simp add: t update_physics_vel_h)
  have c: "C (fst (handle_game_turn s cfg (CHR ''Y'') go)) = 4"
    using assms by (simp add: t physics_and_fuel_C)
  have "fl 1.4 = 6305039478318694 / 2 ^ 52" "fl 0.9 = 8106479329266893 / 2 ^ 53"
    using fl_1_4 fl_0_9 by simp_all
  with v h c show ?thesis
    by (simp add: vel_h_arrow_def)
qed

theorem burn_left_first_turn_witness:
  "vel_v scenario_turn1 = fl 1.4 \<and> vel_h scenario_turn1 = 8106479329266892 / 2 ^ 53 \<and>
   vel_h scenario_turn1 = fl 0.9 - 1 / 2 ^ 53 \<and>
   vel_h_arrow (vel_h scenario_turn1) = ''->'' \<and> C scenario_turn1 = 4"
proof -
  have scenario: "gravity moon_config = fl 1.6" "engine_force moon_config = 3.0"
    "C scenario_state = 5" "vel_h scenario_state = 0" "vel_v scenario_state = 0"
    "engines_on scenario_state \<noteq> 0" "time_step scenario_state = 1"
    by (simp_all add: moon_config_def scenario_state_def)
  from burn_left_first_turn [OF scenario, of 0] show ?thesis
    unfolding scenario_turn1_def .
qed

text \<open>
  The claim as it is worded asks for a horizontal velocity of magnitude \<open>0.9\<close> pointing
  left, that is, negative. In the scenario of the specification the velocity after the
  turn is positive.
\<close>

lemma scenario_turn1_vel_h: "vel_h scenario_turn1 = 8106479329266892 / 2 ^ 53"
proof -
  have "fst (handle_game_turn scenario_state moon_config (CHR ''Y'') 0) =
          fst (radar_decay (physics_and_fuel scenario_state moon_config (CHR ''Y'')))"
    by (intro burn_turn_state) (simp_all add: scenario_state_def)
  then show ?thesis
    using burn_left_velocities(2)
    by (simp add: scenario_turn1_def update_physics_vel_h scenario_state_def moon_config_def)
qed

theorem burn_left_leftward_counterexample:
  "0 < vel_h scenario_turn1 \<and>
   \<not> (vel_h scenario_turn1 < 0 \<and> \<bar>vel_h scenario_turn1\<bar> = 0.9)"
  by (simp add: scenario_turn1_vel_h)

section \<open>Turns: rejected burns and drifting\<close>

lemma c_toupper_examples:
  "c_toupper (CHR ''r'') = CHR ''R''" "c_toupper (CHR ''R'') = CHR ''R''"
  "c_toupper (CHR ''y'') = CHR ''Y''" "c_toupper (CHR ''Y'') = CHR ''Y''"
  "c_toupper (CHR ''z'') = CHR ''Z''" "c_toupper (CHR ''Z'') = CHR ''Z''"
  "c_toupper (CHR ''x'') = CHR ''X''" "c_toupper (CHR ''X'') = CHR ''X''"
  "c_toupper (CHR ''v'') = CHR ''V''" "c_toupper (CHR ''V'') = CHR ''V''"
  "c_toupper (CHR ''w'') = CHR ''W''" "c_toupper (CHR ''s'') = CHR ''S''"
  by (simp_all add: c_toupper_def char_of_def bit_0)

text \<open>
  Claim C7. With fuel \<open>> 0\<close> and the engines off, a burn command (\<open>Y\<close> or \<open>Z\<close>) is turned
  away by \<^verbatim>\<open>handle_game_turn\<close>: the flight state and the game-over flag come back as
  they were and the only output is the refusal; so the command loop, given that command in
  either letter case during a flight, leaves its whole world unchanged (no fuel spent, no
  physics, no radar decay).
\<close>

theorem burn_rejected_engines_off:
  assumes "0 < C s" and "engines_on s = 0" and "cmd = CHR ''Y'' \<or> cmd = CHR ''Z''"
  shows "handle_game_turn s cfg cmd go = (s, go, [CannotBurn]) \<and>
         (\<forall>w k m. state w = s \<and> game_over w = 0 \<and> c_toupper k = cmd \<longrightarrow>
            main_step (k, m) w = Some (w, [CannotBurn]))"
  using assms
  by (auto simp add: main_step_def handle_game_turn_def turn_prologue_def)

theorem burn_rejected_engines_off_witness:
  "0 < C coasting_state \<and> engines_on coasting_state = 0 \<and>
   handle_game_turn coasting_state moon_config (CHR ''Z'') 0 = (coasting_state, 0, [CannotBurn]) \<and>
   state coasting_world = coasting_state \<and> game_over coasting_world = 0 \<and>
   c_toupper (CHR ''z'') = CHR ''Z'' \<and>
   main_step (CHR ''z'', []) coasting_world = Some (coasting_world, [CannotBurn])"
  using burn_rejected_engines_off [of coasting_state "CHR ''Z''" moon_config 0]
  by (simp add: coasting_world_def coasting_state_def c_toupper_examples)

lemma drift_turn_state:
  "fst (handle_game_turn s cfg (CHR ''X'') go) =
     fst (radar_decay (physics_and_fuel (fst (turn_prologue s (CHR ''X''))) cfg (CHR ''X'')))"
  using handle_game_turn_state [of s "CHR ''X''" cfg go]
  by (simp add: turn_rejected_iff) (simp add: turn_prologue_def)

text \<open>
  Claim C8. With the engines off, a drift turn (command \<open>X\<close>) leaves the horizontal velocity
  and the fuel as they were, whatever the altitude, and the vertical velocity changes by
  gravity alone: it becomes \<open>vel_v - gravity * time_step\<close>, product and difference rounded
  to doubles. The physics integrator itself, with the engines off, leaves the horizontal
  velocity unchanged for every command.
\<close>

theorem drift_engines_off_frame:
  assumes "engines_on s = 0"
  shows "vel_h (fst (handle_game_turn s cfg (CHR ''X'') go)) = vel_h s \<and>
         C (fst (handle_game_turn s cfg (CHR ''X'') go)) = C s \<and>
         vel_v (fst (handle_game_turn s cfg (CHR ''X'') go)) =
           fl (vel_v s - fl (gravity cfg * time_step s)) \<and>
         (\<forall>cmd. vel_h (update_physics s cfg cmd) = vel_h s \<and>
                vel_v (update_physics s cfg cmd) = fl (vel_v s - fl (gravity cfg * time_step s)))"
  using assms
  by (simp add: drift_turn_state update_physics_vel_h update_physics_vel_v physics_and_fuel_C
      turn_prologue_def)

theorem drift_engines_off_frame_witness:
  "engines_on coasting_state = 0 \<and>
   vel_h (fst (handle_game_turn coasting_state test_config (CHR ''X'') 0)) = 2 \<and>
   C (fst (handle_game_turn coasting_state test_config (CHR ''X'') 0)) = 3 \<and>
   vel_v (fst (handle_game_turn coasting_state test_config (CHR ''X'') 0)) = -5"
  using drift_engines_off_frame [of coasting_state test_config 0]
  by (simp add: coasting_state_def test_config_def fl_minus)

section \<open>Radar activation from the command loop\<close>

text \<open>
  Claim C5. During a flight, command \<open>R\<close> with fuel \<open>0\<close> is refused: the world is returned
  unchanged with the refusal as the only output, so a radar that was inactive is still
  inactive. With fuel \<open>1\<close> or more it takes exactly one fuel unit, sets the radar active and
  its remaining turns to \<open>3\<close>, and changes nothing else.
\<close>

theorem radar_activation_fuel:
  assumes "game_over w = 0" and "c_toupper k = CHR ''R''"
  shows "(C (state w) = 0 \<longrightarrow>
            main_step (k, m) w = Some (w, [NoFuelForRadar]) \<and>
            (active (radar (state w)) = 0 \<longrightarrow>
               active (radar (state (fst (the (main_step (k, m) w))))) = 0)) \<and>
         (1 \<le> C (state w) \<longrightarrow>
            main_step (k, m) w =
              Some (w\<lparr>state := (state w)\<lparr>C := C (state w) - 1,
                     radar := (radar (state w))\<lparr>active := 1, turns_remaining := 3\<rparr>\<rparr>\<rparr>,
                    [ActivatingRadar, RadarData, RadarVisuals, LanderStatus] @
                    (if C (state w) = 1 then [FuelDepleted] else [])))"
  using assms
  by (simp add: main_step_def activate_landing_radar_def display_landing_radar_def
      display_status_def Let_def)

theorem radar_activation_fuel_witness:
  "game_over dry_world = 0 \<and> c_toupper (CHR ''r'') = CHR ''R'' \<and> C (state dry_world) = 0 \<and>
   active (radar (state dry_world)) = 0 \<and>
   main_step (CHR ''r'', []) dry_world = Some (dry_world, [NoFuelForRadar]) \<and>
   1 \<le> C (state scenario_world) \<and>
   main_step (CHR ''r'', []) scenario_world =
     Some (scenario_world\<lparr>state := with_radar (scenario_state\<lparr>C := 4\<rparr>) 1 3\<rparr>,
           [ActivatingRadar, RadarData, RadarVisuals, LanderStatus])"
  using radar_activation_fuel [of dry_world "CHR ''r''" "[]"]
    radar_activation_fuel [of scenario_world "CHR ''r''" "[]"]
  by (simp add: dry_world_def scenario_world_def dry_state_def scenario_state_def
      flat_radar_def c_toupper_examples with_radar_def)

text \<open>
  Claim C10. During a flight, command \<open>R\<close> given while the radar is already active, with
  fuel available, takes one more fuel unit and sets the remaining turns to \<open>3\<close> whatever
  they were: the window is rewound, not refused and not added to.
\<close>

theorem radar_rewind:
  assumes "game_over w = 0" and "c_toupper k = CHR ''R''"
    and "active (radar (state w)) \<noteq> 0" and "0 < C (state w)"
  shows "main_step (k, m) w =
           Some (w\<lparr>state := (state w)\<lparr>C := C (state w) - 1,
                    radar := (radar (state w))\<lparr>active := 1, turns_remaining := 3\<rparr>\<rparr>\<rparr>,
                 [ActivatingRadar, RadarData, RadarVisuals, LanderStatus] @
                 (if C (state w) = 1 then [FuelDepleted] else []))"
  using assms
  by (simp add: main_step_def activate_landing_radar_def display_landing_radar_def
      display_status_def Let_def)

theorem radar_rewind_witness:
  "game_over tracking_world = 0 \<and> c_toupper (CHR ''R'') = CHR ''R'' \<and>
   active (radar (state tracking_world)) \<noteq> 0 \<and>
   turns_remaining (radar (state tracking_world)) = 2 \<and> 0 < C (state tracking_world) \<and>
   main_step (CHR ''R'', []) tracking_world =
     Some (scenario_world\<lparr>state := with_radar (scenario_state\<lparr>C := 4\<rparr>) 1 3\<rparr>,
           [ActivatingRadar, RadarData, RadarVisuals, LanderStatus])"
  using radar_rewind [of tracking_world "CHR ''R''" "[]"]
  by (simp add: tracking_world_def scenario_world_def scenario_state_def with_radar_def
      flat_radar_def c_toupper_examples)

section \<open>The radar window\<close>

lemma radar_decay_radar:
  "radar (fst (radar_decay s)) =
     (if active (radar s) \<noteq> 0 \<and> 0 < turns_remaining (radar s)
      then (radar s)\<lparr>turns_remaining := turns_remaining (radar s) - 1,
                      active := (if turns_remaining (radar s) \<le> 1 then 0 else active (radar s))\<rparr>
      else radar s)"
  by (simp add: radar_decay_def Let_def)

lemma radar_decay_out:
  "snd (radar_decay s) =
     (if active (radar s) \<noteq> 0 \<and> 0 < turns_remaining (radar s) \<and> turns_remaining (radar s) \<le> 1
      then [SignalLost] else [])"
  by (simp add: radar_decay_def Let_def)

lemma turn_prologue_out:
  "count_list (snd (snd (turn_prologue s cmd))) SignalLost = 0"
  by (simp add: turn_prologue_def)

lemma handle_game_turn_out:
  assumes "\<not> turn_rejected s cmd"
  shows "count_list (snd (snd (handle_game_turn s cfg cmd go))) SignalLost =
           count_list (snd (radar_decay (physics_and_fuel (fst (turn_prologue s cmd)) cfg
             (fst (snd (turn_prologue s cmd)))))) SignalLost"
proof -
  obtain s1 c1 out1 where p: "turn_prologue s cmd = (s1, c1, out1)"
    by (cases "turn_prologue s cmd") auto
  obtain s4 out3 where d: "radar_decay (physics_and_fuel s1 cfg c1) = (s4, out3)"
    by (cases "radar_decay (physics_and_fuel s1 cfg c1)") auto
  from assms p have "\<not> ((c1 = CHR ''Y'' \<or> c1 = CHR ''Z'') \<and> engines_on s1 = 0)"
    by (simp add: turn_rejected_def)
  moreover from p have "count_list out1 SignalLost = 0"
    using turn_prologue_out [of s cmd] by simp
  ultimately show ?thesis
    by (auto simp add: handle_game_turn_def p d Let_def display_landing_radar_def
        display_status_def)
qed

lemma resolved_turn_radar:
  assumes "\<not> turn_rejected s cmd"
  shows "radar (fst (handle_game_turn s cfg cmd go)) =
     (if active (radar s) \<noteq> 0 \<and> 0 < turns_remaining (radar s)
      then (radar s)\<lparr>turns_remaining := turns_remaining (radar s) - 1,
                      active := (if turns_remaining (radar s) \<le> 1 then 0 else active (radar s))\<rparr>
      else radar s)"
  using handle_game_turn_state [OF assms, of cfg go]
  by (simp add: radar_decay_radar)

lemma resolved_turn_signal:
  assumes "\<not> turn_rejected s cmd"
  shows "count_list (snd (snd (handle_game_turn s cfg cmd go))) SignalLost =
     (if active (radar s) \<noteq> 0 \<and> 0 < turns_remaining (radar s) \<and> turns_remaining (radar s) \<le> 1
      then 1 else 0)"
  using handle_game_turn_out [OF assms, of cfg go]
  by (simp add: radar_decay_out)

lemma main_step_resolved:
  assumes "is_resolved_turn i w"
  shows "main_step i w =
     Some (w\<lparr>state := fst (handle_game_turn (state w) (config w) (c_toupper (fst i)) (game_over w)),
             game_over := fst (snd (handle_game_turn (state w) (config w) (c_toupper (fst i)) (game_over w)))\<rparr>,
           snd (snd (handle_game_turn (state w) (config w) (c_toupper (fst i)) (game_over w))))"
  using assms
  by (auto simp add: is_resolved_turn_def main_step_def Let_def split: prod.splits)

lemma main_step_unresolved:
  assumes "\<not> is_resolved_turn i w" and "main_step i w = Some (w1, out1)"
    and "c_toupper (fst i) \<noteq> CHR ''R''" and "c_toupper (fst i) \<noteq> CHR ''V''"
  shows "radar (state w1) = radar (state w) \<and> count_list out1 SignalLost = 0"
proof (cases "game_over w = 0 \<and> (c_toupper (fst i) = CHR ''Y'' \<or> c_toupper (fst i) = CHR ''Z'' \<or> c_toupper (fst i) = CHR ''X'')")
  case True
  with assms(1) have "turn_rejected (state w) (c_toupper (fst i))"
    by (simp add: is_resolved_turn_def)
  from handle_game_turn_rejected [OF this] True assms(2) show ?thesis
    by (auto simp add: main_step_def Let_def)
next
  case False
  with assms(2-4) show ?thesis
    by (auto simp add: main_step_def Let_def split: if_splits)
qed


lemma main_step_radar_step:
  assumes "main_step i w = Some (w1, out1)"
    and "c_toupper (fst i) \<noteq> CHR ''R''" and "c_toupper (fst i) \<noteq> CHR ''V''"
  shows "radar (state w1) =
           (if is_resolved_turn i w \<and> active (radar (state w)) \<noteq> 0 \<and>
               0 < turns_remaining (radar (state w))
            then (radar (state w))\<lparr>turns_remaining := turns_remaining (radar (state w)) - 1,
                   active := (if turns_remaining (radar (state w)) \<le> 1 then 0
                              else active (radar (state w)))\<rparr>
            else radar (state w))"
    and "count_list out1 SignalLost =
           (if is_resolved_turn i w \<and> active (radar (state w)) \<noteq> 0 \<and>
               0 < turns_remaining (radar (state w)) \<and> turns_remaining (radar (state w)) \<le> 1
            then 1 else 0)"
proof -
  show "radar (state w1) =
           (if is_resolved_turn i w \<and> active (radar (state w)) \<noteq> 0 \<and>
               0 < turns_remaining (radar (state w))
            then (radar (state w))\<lparr>turns_remaining := turns_remaining (radar (state w)) - 1,
                   active := (if turns_remaining (radar (state w)) \<le> 1 then 0
                              else active (radar (state w)))\<rparr>
            else radar (state w))"
  proof (cases "is_resolved_turn i w")
    case True
    then have "\<not> turn_rejected (state w) (c_toupper (fst i))"
      by (simp add: is_resolved_turn_def)
    from resolved_turn_radar [OF this] main_step_resolved [OF True] assms(1) show ?thesis
      using True by auto
  next
    case False
    from main_step_unresolved [OF False assms] show ?thesis
      using False by simp
  qed
  show "count_list out1 SignalLost =
           (if is_resolved_turn i w \<and> active (radar (state w)) \<noteq> 0 \<and>
               0 < turns_remaining (radar (state w)) \<and> turns_remaining (radar (state w)) \<le> 1
            then 1 else 0)"
  proof (cases "is_resolved_turn i w")
    case True
    then have "\<not> turn_rejected (state w) (c_toupper (fst i))"
      by (simp add: is_resolved_turn_def)
    from resolved_turn_signal [OF this] main_step_resolved [OF True] assms(1) show ?thesis
      using True by auto
  next
    case False
    from main_step_unresolved [OF False assms] show ?thesis
      using False by simp
  qed
qed

lemma run_Cons_Some:
  assumes "run (i # is) w = Some (w', out)"
  obtains w1 out1 out2 where "main_step i w = Some (w1, out1)"
    and "run is w1 = Some (w', out2)" and "out = out1 @ out2"
  using assms by (auto split: option.splits prod.splits)

lemma run_radar_inactive:
  assumes "active (radar (state w)) = 0"
    and "\<forall>i\<in>set is. c_toupper (fst i) \<noteq> CHR ''R'' \<and> c_toupper (fst i) \<noteq> CHR ''V''"
    and "run is w = Some (w', out)"
  shows "radar (state w') = radar (state w) \<and> count_list out SignalLost = 0"
  using assms
proof (induction "is" arbitrary: w w' out)
  case Nil
  then show ?case by simp
next
  case (Cons i "is")
  from Cons.prems(3) obtain w1 out1 out2 where
    step: "main_step i w = Some (w1, out1)" and rest: "run is w1 = Some (w', out2)"
    and out: "out = out1 @ out2"
    by (rule run_Cons_Some)
  from Cons.prems(2) have i: "c_toupper (fst i) \<noteq> CHR ''R''" "c_toupper (fst i) \<noteq> CHR ''V''"
    by simp_all
  from main_step_radar_step [OF step i] Cons.prems(1)
  have same: "radar (state w1) = radar (state w)" and quiet: "count_list out1 SignalLost = 0"
    by simp_all
  from Cons.IH [OF _ _ rest] same Cons.prems(1,2)
  have "radar (state w') = radar (state w1) \<and> count_list out2 SignalLost = 0"
    by simp
  with same quiet out show ?case
    by simp
qed

lemma run_radar_countdown:
  assumes "active (radar (state w)) \<noteq> 0" and "turns_remaining (radar (state w)) = int n"
    and "0 < n"
    and "\<forall>i\<in>set is. c_toupper (fst i) \<noteq> CHR ''R'' \<and> c_toupper (fst i) \<noteq> CHR ''V''"
    and "run is w = Some (w', out)"
  shows "if resolved_turns is w < n
         then active (radar (state w')) = active (radar (state w)) \<and>
              turns_remaining (radar (state w')) = int n - int (resolved_turns is w) \<and>
              count_list out SignalLost = 0
         else active (radar (state w')) = 0 \<and> turns_remaining (radar (state w')) = 0 \<and>
              count_list out SignalLost = 1"
  using assms
proof (induction "is" arbitrary: w n w' out)
  case Nil
  then show ?case by simp
next
  case (Cons i "is")
  from Cons.prems(5) obtain w1 out1 out2 where
    step: "main_step i w = Some (w1, out1)" and rest: "run is w1 = Some (w', out2)"
    and out: "out = out1 @ out2"
    by (rule run_Cons_Some)
  from Cons.prems(4) have i: "c_toupper (fst i) \<noteq> CHR ''R''" "c_toupper (fst i) \<noteq> CHR ''V''"
    and tl: "\<forall>i\<in>set is. c_toupper (fst i) \<noteq> CHR ''R'' \<and> c_toupper (fst i) \<noteq> CHR ''V''"
    by simp_all
  note eff = main_step_radar_step [OF step i]
  show ?case
  proof (cases "is_resolved_turn i w")
    case False
    with eff have same: "radar (state w1) = radar (state w)"
      and quiet: "count_list out1 SignalLost = 0"
      by simp_all
    from False step have k: "resolved_turns (i # is) w = resolved_turns is w1"
      by simp
    from Cons.IH [of w1 n, OF _ _ Cons.prems(3) tl rest] same Cons.prems(1,2) quiet out k
    show ?thesis
      by (simp split: if_splits)
  next
    case True
    from True step have k: "resolved_turns (i # is) w = Suc (resolved_turns is w1)"
      by simp
    show ?thesis
    proof (cases "n = 1")
      case True
      with eff \<open>is_resolved_turn i w\<close> Cons.prems(1,2)
      have off: "active (radar (state w1)) = 0" "turns_remaining (radar (state w1)) = 0"
        and lost: "count_list out1 SignalLost = 1"
        by simp_all
      from run_radar_inactive [OF off(1) tl rest] off lost out k True show ?thesis
        by simp
    next
      case False
      with Cons.prems(3) obtain m where n: "n = Suc m" and m: "0 < m"
        by (cases n) auto
      with eff \<open>is_resolved_turn i w\<close> Cons.prems(1,2)
      have on: "active (radar (state w1)) = active (radar (state w))"
        "turns_remaining (radar (state w1)) = int m"
        and quiet: "count_list out1 SignalLost = 0"
        by simp_all
      from Cons.IH [of w1 m, OF _ on(2) m tl rest] on Cons.prems(1) quiet out k n
      show ?thesis
        by (simp split: if_splits)
    qed
  qed
qed


lemma terrain_sample_flags:
  "active (radar (fst (terrain_sample i sg))) = active (radar (fst sg))"
  "turns_remaining (radar (fst (terrain_sample i sg))) = turns_remaining (radar (fst sg))"
  "C (fst (terrain_sample i sg)) = C (fst sg)"
  by (simp_all add: terrain_sample_def Let_def split: prod.splits)

lemma fold_terrain_sample_flags:
  "active (radar (fst (fold terrain_sample xs sg))) = active (radar (fst sg)) \<and>
   turns_remaining (radar (fst (fold terrain_sample xs sg))) = turns_remaining (radar (fst sg)) \<and>
   C (fst (fold terrain_sample xs sg)) = C (fst sg)"
  by (induction xs arbitrary: sg) (simp_all add: terrain_sample_flags)

lemma generate_terrain_data_flags:
  "active (radar (fst (generate_terrain_data s g))) = active (radar s) \<and>
   turns_remaining (radar (fst (generate_terrain_data s g))) = turns_remaining (radar s) \<and>
   C (fst (generate_terrain_data s g)) = C s"
proof -
  obtain s1 g1 where f: "fold terrain_sample [0..<21] (s, g) = (s1, g1)"
    by (cases "fold terrain_sample [0..<21] (s, g)") auto
  obtain bs bx where b: "best_scan s1 = (bs, bx)"
    by (cases "best_scan s1") auto
  from fold_terrain_sample_flags [of "[0..<21]" "(s, g)"] show ?thesis
    by (simp add: generate_terrain_data_def f b Let_def)
qed

lemma init_game_flags:
  "active (radar (fst (init_game s cfg g))) = 0 \<and>
   turns_remaining (radar (fst (init_game s cfg g))) = 0 \<and>
   C (fst (init_game s cfg g)) = initial_fuel cfg"
  by (simp add: init_game_def Let_def generate_terrain_data_flags split: prod.splits)

lemma main_step_new_flight:
  assumes "c_toupper (fst i) = CHR ''V''"
  shows "main_step i w =
     Some (w\<lparr>state := fst (init_game (state w) (config w) (seed w)),
             seed := snd (init_game (state w) (config w) (seed w)), game_over := 0\<rparr>,
           NewGameStarted # display_status (fst (init_game (state w) (config w) (seed w))) (config w))"
  using assms by (simp add: main_step_def Let_def split: prod.splits)

lemma main_step_radar_ok:
  assumes "main_step i w = Some (w1, out1)"
    and "c_toupper (fst i) = CHR ''V'' \<or> radar_ok (state w)"
  shows "radar_ok (state w1)"
proof (cases "c_toupper (fst i) = CHR ''V''")
  case True
  from main_step_new_flight [OF True, of w] assms(1) init_game_flags [of "state w" "config w" "seed w"]
  show ?thesis
    by (auto simp add: radar_ok_def)
next
  case notV: False
  with assms(2) have ok: "radar_ok (state w)"
    by simp
  show ?thesis
  proof (cases "c_toupper (fst i) = CHR ''R''")
    case True
    with assms(1) ok show ?thesis
      by (auto simp add: main_step_def Let_def activate_landing_radar_def radar_ok_def
          split: if_splits)
  next
    case False
    from main_step_radar_step(1) [OF assms(1) False notV] ok show ?thesis
      by (auto simp add: radar_ok_def split: if_splits)
  qed
qed

lemma run_radar_ok:
  assumes "radar_ok (state w)" and "run is w = Some (w', out)"
  shows "radar_ok (state w')"
  using assms
proof (induction "is" arbitrary: w w' out)
  case Nil
  then show ?case by simp
next
  case (Cons i "is")
  from Cons.prems(2) obtain w1 out1 out2 where
    step: "main_step i w = Some (w1, out1)" and rest: "run is w1 = Some (w', out2)"
    by (rule run_Cons_Some)
  from main_step_radar_ok [OF step] Cons.prems(1) have "radar_ok (state w1)"
    by simp
  from Cons.IH [OF this rest] show ?case .
qed

lemma main_step_no_quit:
  "c_toupper (fst i) \<noteq> CHR ''Q'' \<Longrightarrow> main_step i w \<noteq> None"
  by (simp add: main_step_def Let_def split: prod.splits)

lemma run_no_quit:
  "\<forall>i\<in>set is. c_toupper (fst i) \<noteq> CHR ''Q'' \<Longrightarrow> run is w \<noteq> None"
proof (induction "is" arbitrary: w)
  case Nil
  then show ?case by simp
next
  case (Cons i "is")
  then have "main_step i w \<noteq> None"
    by (simp add: main_step_no_quit)
  then obtain w1 out1 where "main_step i w = Some (w1, out1)"
    by (cases "main_step i w") auto
  moreover from Cons have "run is w1 \<noteq> None"
    by simp
  ultimately show ?case
    by (auto split: option.splits)
qed

text \<open>
  Claim C6. Take a world whose radar is active with \<open>3\<close> turns remaining and run the command
  loop on inputs that neither activate the radar again nor start a new flight. While fewer
  than \<open>3\<close> turns have been resolved the radar is still active, with \<open>3\<close> minus that many
  turns remaining and no signal-loss message; once \<open>3\<close> turns have been resolved the radar
  is inactive with \<open>0\<close> turns remaining, and the signal-loss message has been printed
  exactly once. And in every world reached after a new flight was started (command \<open>V\<close>
  followed by any inputs), the radar is not active with \<open>0\<close> turns remaining.
\<close>

theorem radar_window:
  "(active (radar (state w)) \<noteq> 0 \<and> turns_remaining (radar (state w)) = 3 \<and>
    (\<forall>i\<in>set cmds. c_toupper (fst i) \<noteq> CHR ''R'' \<and> c_toupper (fst i) \<noteq> CHR ''V'') \<and>
    run cmds w = Some (w', out) \<longrightarrow>
      (resolved_turns cmds w < 3 \<longrightarrow>
         active (radar (state w')) \<noteq> 0 \<and>
         turns_remaining (radar (state w')) = 3 - int (resolved_turns cmds w) \<and>
         count_list out SignalLost = 0) \<and>
      (3 \<le> resolved_turns cmds w \<longrightarrow>
         active (radar (state w')) = 0 \<and> turns_remaining (radar (state w')) = 0 \<and>
         count_list out SignalLost = 1)) \<and>
   (c_toupper (fst i0) = CHR ''V'' \<and> run (i0 # js) w0 = Some (w2, out2) \<longrightarrow>
      \<not> (active (radar (state w2)) \<noteq> 0 \<and> turns_remaining (radar (state w2)) = 0))"
proof (intro conjI impI)
  assume a: "active (radar (state w)) \<noteq> 0 \<and> turns_remaining (radar (state w)) = 3 \<and>
    (\<forall>i\<in>set cmds. c_toupper (fst i) \<noteq> CHR ''R'' \<and> c_toupper (fst i) \<noteq> CHR ''V'') \<and>
    run cmds w = Some (w', out)"
  then have cd: "if resolved_turns cmds w < 3
         then active (radar (state w')) = active (radar (state w)) \<and>
              turns_remaining (radar (state w')) = int 3 - int (resolved_turns cmds w) \<and>
              count_list out SignalLost = 0
         else active (radar (state w')) = 0 \<and> turns_remaining (radar (state w')) = 0 \<and>
              count_list out SignalLost = 1"
    by (intro run_radar_countdown) simp_all
  {
    assume "resolved_turns cmds w < 3"
    with cd a show "active (radar (state w')) \<noteq> 0" 
      and "turns_remaining (radar (state w')) = 3 - int (resolved_turns cmds w)"
      and "count_list out SignalLost = 0"
      by simp_all
  }
  {
    assume "3 \<le> resolved_turns cmds w"
    with cd show "active (radar (state w')) = 0" and "turns_remaining (radar (state w')) = 0"
      and "count_list out SignalLost = 1"
      by simp_all
  }
next
  assume b: "c_toupper (fst i0) = CHR ''V'' \<and> run (i0 # js) w0 = Some (w2, out2)"
  then have "run (i0 # js) w0 = Some (w2, out2)"
    by simp
  then obtain w1 out1 out3 where
    step: "main_step i0 w0 = Some (w1, out1)" and rest: "run js w1 = Some (w2, out3)"
    by (rule run_Cons_Some)
  from main_step_radar_ok [OF step] b have "radar_ok (state w1)"
    by simp
  from run_radar_ok [OF this rest]
  show "\<not> (active (radar (state w2)) \<noteq> 0 \<and> turns_remaining (radar (state w2)) = 0)"
    by (auto simp add: radar_ok_def)
qed


lemma run_two_turns: "run two_turns radar3_world = Some (two_turns_world, take 8 three_turns_output)"
  by (simp add: two_turns_def two_turns_world_def three_turns_output_def radar3_world_def
      scenario_state_def fl_minus
      with_radar_def flat_radar_def test_config_def main_step_def c_toupper_examples
      handle_game_turn_def turn_prologue_def physics_and_fuel_def update_physics_def
      radar_decay_def check_landing_def display_status_def display_landing_radar_def Let_def)

lemma run_three_turns: "run three_turns radar3_world = Some (three_turns_world, three_turns_output)"
  by (simp add: three_turns_def three_turns_world_def three_turns_output_def radar3_world_def
      scenario_state_def fl_minus
      with_radar_def flat_radar_def test_config_def main_step_def c_toupper_examples
      handle_game_turn_def turn_prologue_def physics_and_fuel_def update_physics_def
      radar_decay_def check_landing_def display_status_def display_landing_radar_def Let_def)

lemma resolved_two_turns: "resolved_turns two_turns radar3_world = 2"
  by (simp add: two_turns_def radar3_world_def
      scenario_state_def is_resolved_turn_def turn_rejected_iff fl_minus
      with_radar_def flat_radar_def test_config_def main_step_def c_toupper_examples
      handle_game_turn_def turn_prologue_def physics_and_fuel_def update_physics_def
      radar_decay_def check_landing_def display_status_def display_landing_radar_def Let_def)

lemma resolved_three_turns: "resolved_turns three_turns radar3_world = 3"
  by (simp add: three_turns_def radar3_world_def
      scenario_state_def is_resolved_turn_def turn_rejected_iff fl_minus
      with_radar_def flat_radar_def test_config_def main_step_def c_toupper_examples
      handle_game_turn_def turn_prologue_def physics_and_fuel_def update_physics_def
      radar_decay_def check_landing_def display_status_def display_landing_radar_def Let_def)

lemma run_fresh_flight:
  "run fresh_flight dry_world =
     Some (fst (the (run fresh_flight dry_world)), snd (the (run fresh_flight dry_world)))"
proof -
  have "run fresh_flight dry_world \<noteq> None"
    by (rule run_no_quit) (simp add: fresh_flight_def c_toupper_examples)
  then show ?thesis
    by auto
qed

theorem radar_window_witness:
  "active (radar (state radar3_world)) \<noteq> 0 \<and> turns_remaining (radar (state radar3_world)) = 3 \<and>
   run two_turns radar3_world = Some (two_turns_world, take 8 three_turns_output) \<and>
   resolved_turns two_turns radar3_world = 2 \<and>
   active (radar (state two_turns_world)) \<noteq> 0 \<and>
   turns_remaining (radar (state two_turns_world)) = 1 \<and>
   count_list (take 8 three_turns_output) SignalLost = 0 \<and>
   run three_turns radar3_world = Some (three_turns_world, three_turns_output) \<and>
   resolved_turns three_turns radar3_world = 3 \<and>
   active (radar (state three_turns_world)) = 0 \<and>
   turns_remaining (radar (state three_turns_world)) = 0 \<and>
   count_list three_turns_output SignalLost = 1 \<and>
   c_toupper (CHR ''v'') = CHR ''V'' \<and>
   run fresh_flight dry_world \<noteq> None \<and>
   \<not> (active (radar (state (fst (the (run fresh_flight dry_world))))) \<noteq> 0 \<and>
      turns_remaining (radar (state (fst (the (run fresh_flight dry_world))))) = 0)"
proof -
  have flags: "active (radar (state radar3_world)) \<noteq> 0"
    "turns_remaining (radar (state radar3_world)) = 3"
    by (simp_all add: radar3_world_def with_radar_def)
  have quiet2: "\<forall>i\<in>set two_turns. c_toupper (fst i) \<noteq> CHR ''R'' \<and> c_toupper (fst i) \<noteq> CHR ''V''"
    by (simp add: two_turns_def c_toupper_examples)
  have quiet3: "\<forall>i\<in>set three_turns. c_toupper (fst i) \<noteq> CHR ''R'' \<and> c_toupper (fst i) \<noteq> CHR ''V''"
    by (simp add: three_turns_def c_toupper_examples)
  have v: "c_toupper (fst (CHR ''v'', [])) = CHR ''V''"
    by (simp add: c_toupper_examples)
  have fresh: "run ((CHR ''v'', []) # [(CHR ''r'', []), (CHR ''x'', [])]) dry_world =
     Some (fst (the (run fresh_flight dry_world)), snd (the (run fresh_flight dry_world)))"
    using run_fresh_flight by (simp add: fresh_flight_def)
  note two = radar_window [where w = radar3_world and cmds = two_turns
      and w' = two_turns_world and out = "take 8 three_turns_output"
      and ?i0.0 = "(CHR ''v'', [])" and js = "[(CHR ''r'', []), (CHR ''x'', [])]"
      and ?w0.0 = dry_world and ?w2.0 = "fst (the (run fresh_flight dry_world))"
      and ?out2.0 = "snd (the (run fresh_flight dry_world))"]
  note three = radar_window [where w = radar3_world and cmds = three_turns
      and w' = three_turns_world and out = three_turns_output
      and ?i0.0 = "(CHR ''v'', [])" and js = "[(CHR ''r'', []), (CHR ''x'', [])]"
      and ?w0.0 = dry_world and ?w2.0 = "fst (the (run fresh_flight dry_world))"
      and ?out2.0 = "snd (the (run fresh_flight dry_world))"]
  have started: "run fresh_flight dry_world \<noteq> None"
    by (rule run_no_quit) (simp add: fresh_flight_def c_toupper_examples)
  from two three flags quiet2 quiet3 v fresh started run_two_turns run_three_turns
    resolved_two_turns resolved_three_turns
  show ?thesis
    by (simp add: c_toupper_examples)
qed

section \<open>Fuel never goes negative\<close>

lemma handle_game_turn_C:
  "C (fst (handle_game_turn s cfg cmd go)) =
     (if 0 < C s \<and> cmd \<noteq> CHR ''X'' \<and> \<not> turn_rejected s cmd then C s - 1 else C s)"
proof (cases "turn_rejected s cmd")
  case True
  then show ?thesis
    by (simp add: handle_game_turn_rejected)
next
  case False
  from handle_game_turn_state [OF False, of cfg go] show ?thesis
    using False by (simp add: physics_and_fuel_C) (simp add: turn_prologue_def)
qed

lemma handle_game_turn_dry:
  assumes "C s \<le> 0"
  shows "handle_game_turn s cfg cmd go = handle_game_turn (s\<lparr>engines_on := 0\<rparr>) cfg (CHR ''X'') go"
    and "engines_on (fst (handle_game_turn s cfg cmd go)) = 0"
proof -
  show eq: "handle_game_turn s cfg cmd go = handle_game_turn (s\<lparr>engines_on := 0\<rparr>) cfg (CHR ''X'') go"
    using assms by (simp add: handle_game_turn_def turn_prologue_def)
  have "\<not> turn_rejected (s\<lparr>engines_on := 0\<rparr>) (CHR ''X'')"
    by (simp add: turn_rejected_iff)
  from handle_game_turn_state [OF this, of cfg go] eq
  show "engines_on (fst (handle_game_turn s cfg cmd go)) = 0"
    by (simp add: turn_prologue_def)
qed

lemma main_step_fuel:
  assumes "main_step i w = Some (w1, out1)" and "c_toupper (fst i) \<noteq> CHR ''V''"
    and "0 \<le> C (state w)"
  shows "0 \<le> C (state w1)"
proof (cases "game_over w = 0")
  case False
  with assms(1,2) have "state w1 = state w"
    by (auto simp add: main_step_def Let_def split: if_splits)
  with assms(3) show ?thesis
    by simp
next
  case go: True
  consider (turn) "c_toupper (fst i) = CHR ''Y'' \<or> c_toupper (fst i) = CHR ''Z'' \<or>
      c_toupper (fst i) = CHR ''X''"
    | (radar) "c_toupper (fst i) = CHR ''R''"
    | (other) "c_toupper (fst i) \<noteq> CHR ''Y''" "c_toupper (fst i) \<noteq> CHR ''Z''"
        "c_toupper (fst i) \<noteq> CHR ''X''" "c_toupper (fst i) \<noteq> CHR ''R''"
    by blast
  then show ?thesis
  proof cases
    case turn
    with go assms(1)
    have "state w1 = fst (handle_game_turn (state w) (config w) (c_toupper (fst i)) (game_over w))"
      by (auto simp add: main_step_def Let_def split: prod.splits)
    with assms(3) show ?thesis
      by (simp add: handle_game_turn_C)
  next
    case radar
    with go assms(1) have "C (state w1) = (if 0 < C (state w) then C (state w) - 1 else C (state w))"
      by (auto simp add: main_step_def Let_def activate_landing_radar_def split: if_splits)
    with assms(3) show ?thesis
      by simp
  next
    case other
    with go assms(1,2) have "C (state w1) = C (state w)"
      by (auto simp add: main_step_def Let_def split: if_splits)
    with assms(3) show ?thesis
      by simp
  qed
qed

lemma run_fuel:
  assumes "0 \<le> C (state w)" and "\<forall>i\<in>set is. c_toupper (fst i) \<noteq> CHR ''V''"
    and "run is w = Some (w', out)"
  shows "0 \<le> C (state w')"
  using assms
proof (induction "is" arbitrary: w w' out)
  case Nil
  then show ?case by simp
next
  case (Cons i "is")
  from Cons.prems(3) obtain w1 out1 out2 where
    step: "main_step i w = Some (w1, out1)" and rest: "run is w1 = Some (w', out2)"
    by (rule run_Cons_Some)
  from main_step_fuel [OF step] Cons.prems(1,2) have "0 \<le> C (state w1)"
    by simp
  from Cons.IH [OF this _ rest] Cons.prems(2) show ?case
    by simp
qed

text \<open>
  Claim C9. When a new flight is started (command \<open>V\<close>) with a non-negative initial fuel in
  the configuration, the fuel is non-negative after every later command of that flight
  (any inputs that do not start another flight). A turn takes one fuel unit exactly when
  fuel is positive, the command is not a drift and the burn is not turned away; with fuel
  exhausted any turn command is resolved as a drift with the engines forced off and the
  fuel unchanged; and command \<open>R\<close> takes one fuel unit exactly when fuel is positive.
\<close>

theorem fuel_never_negative:
  "(0 \<le> initial_fuel (config w0) \<and> c_toupper (fst i0) = CHR ''V'' \<and>
    (\<forall>i\<in>set js. c_toupper (fst i) \<noteq> CHR ''V'') \<and> run (i0 # js) w0 = Some (w, out) \<longrightarrow>
      0 \<le> C (state w)) \<and>
   C (fst (handle_game_turn s cfg cmd go)) =
     (if 0 < C s \<and> cmd \<noteq> CHR ''X'' \<and> \<not> turn_rejected s cmd then C s - 1 else C s) \<and>
   (C s \<le> 0 \<longrightarrow>
      handle_game_turn s cfg cmd go = handle_game_turn (s\<lparr>engines_on := 0\<rparr>) cfg (CHR ''X'') go \<and>
      engines_on (fst (handle_game_turn s cfg cmd go)) = 0 \<and>
      C (fst (handle_game_turn s cfg cmd go)) = C s) \<and>
   (game_over w1 = 0 \<and> c_toupper k = CHR ''R'' \<longrightarrow>
      C (state (fst (the (main_step (k, m) w1)))) =
        (if 0 < C (state w1) then C (state w1) - 1 else C (state w1)))"
proof (intro conjI impI)
  assume a: "0 \<le> initial_fuel (config w0) \<and> c_toupper (fst i0) = CHR ''V'' \<and>
    (\<forall>i\<in>set js. c_toupper (fst i) \<noteq> CHR ''V'') \<and> run (i0 # js) w0 = Some (w, out)"
  then have "run (i0 # js) w0 = Some (w, out)"
    by simp
  then obtain wa out1 out2 where
    step: "main_step i0 w0 = Some (wa, out1)" and rest: "run js wa = Some (w, out2)"
    by (rule run_Cons_Some)
  from a have "c_toupper (fst i0) = CHR ''V''"
    by simp
  from main_step_new_flight [OF this, of w0] step
  have "state wa = fst (init_game (state w0) (config w0) (seed w0))"
    by auto
  with a have "0 \<le> C (state wa)"
    by (simp add: init_game_flags)
  from run_fuel [OF this _ rest] a show "0 \<le> C (state w)"
    by simp
next
  show "C (fst (handle_game_turn s cfg cmd go)) =
     (if 0 < C s \<and> cmd \<noteq> CHR ''X'' \<and> \<not> turn_rejected s cmd then C s - 1 else C s)"
    by (rule handle_game_turn_C)
next
  assume dry: "C s \<le> 0"
  from dry show "handle_game_turn s cfg cmd go =
      handle_game_turn (s\<lparr>engines_on := 0\<rparr>) cfg (CHR ''X'') go"
    by (rule handle_game_turn_dry)
  from dry show "engines_on (fst (handle_game_turn s cfg cmd go)) = 0"
    by (rule handle_game_turn_dry)
  from dry show "C (fst (handle_game_turn s cfg cmd go)) = C s"
    by (simp add: handle_game_turn_C)
next
  assume "game_over w1 = 0 \<and> c_toupper k = CHR ''R''"
  then show "C (state (fst (the (main_step (k, m) w1)))) =
        (if 0 < C (state w1) then C (state w1) - 1 else C (state w1))"
    by (simp add: main_step_def Let_def activate_landing_radar_def)
qed


theorem fuel_never_negative_witness:
  "0 \<le> initial_fuel (config dry_world) \<and> c_toupper (CHR ''v'') = CHR ''V'' \<and>
   run fresh_flight dry_world \<noteq> None \<and>
   0 \<le> C (state (fst (the (run fresh_flight dry_world)))) \<and>
   C dry_state \<le> 0 \<and>
   handle_game_turn dry_state moon_config (CHR ''Y'') 0 =
     handle_game_turn (dry_state\<lparr>engines_on := 0\<rparr>) moon_config (CHR ''X'') 0 \<and>
   engines_on (fst (handle_game_turn dry_state moon_config (CHR ''Y'') 0)) = 0 \<and>
   C (fst (handle_game_turn dry_state moon_config (CHR ''Y'') 0)) = 0 \<and>
   C (fst (handle_game_turn scenario_state moon_config (CHR ''Y'') 0)) = 4 \<and>
   game_over scenario_world = 0 \<and> c_toupper (CHR ''r'') = CHR ''R'' \<and>
   C (state (fst (the (main_step (CHR ''r'', []) scenario_world)))) = 4"
proof -
  have v: "c_toupper (fst (CHR ''v'', [])) = CHR ''V''"
    by (simp add: c_toupper_examples)
  have rest: "\<forall>i\<in>set [(CHR ''r'', []), (CHR ''x'', [])]. c_toupper (fst i) \<noteq> CHR ''V''"
    by (simp add: c_toupper_examples)
  have fresh: "run ((CHR ''v'', []) # [(CHR ''r'', []), (CHR ''x'', [])]) dry_world =
     Some (fst (the (run fresh_flight dry_world)), snd (the (run fresh_flight dry_world)))"
    using run_fresh_flight by (simp add: fresh_flight_def)
  have started: "run fresh_flight dry_world \<noteq> None"
    by (rule run_no_quit) (simp add: fresh_flight_def c_toupper_examples)
  have fuel: "0 \<le> initial_fuel (config dry_world)"
    by (simp add: dry_world_def moon_config_def)
  note dry = fuel_never_negative [where ?w0.0 = dry_world and ?i0.0 = "(CHR ''v'', [])"
      and js = "[(CHR ''r'', []), (CHR ''x'', [])]"
      and w = "fst (the (run fresh_flight dry_world))"
      and out = "snd (the (run fresh_flight dry_world))"
      and s = dry_state and cfg = moon_config and cmd = "CHR ''Y''" and go = 0
      and ?w1.0 = scenario_world and k = "CHR ''r''" and m = "[]"]
  note wet = fuel_never_negative [where ?w0.0 = dry_world and ?i0.0 = "(CHR ''v'', [])"
      and js = "[(CHR ''r'', []), (CHR ''x'', [])]"
      and w = "fst (the (run fresh_flight dry_world))"
      and out = "snd (the (run fresh_flight dry_world))"
      and s = scenario_state and cfg = moon_config and cmd = "CHR ''Y''" and go = 0
      and ?w1.0 = scenario_world and k = "CHR ''r''" and m = "[]"]
  have dry_fuel: "C dry_state \<le> 0"
    by (simp add: dry_state_def)
  have d: "C scenario_state = 5" "engines_on scenario_state = 1"
    "game_over scenario_world = 0" "C (state scenario_world) = 5"
    by (simp_all add: scenario_state_def scenario_world_def)
  have r: "c_toupper (CHR ''r'') = CHR ''R''" "c_toupper (CHR ''v'') = CHR ''V''"
    by (simp_all add: c_toupper_examples)
  from dry fuel v rest fresh
  have p1: "0 \<le> C (state (fst (the (run fresh_flight dry_world))))"
    by blast
  from dry dry_fuel
  have p2: "handle_game_turn dry_state moon_config (CHR ''Y'') 0 =
      handle_game_turn (dry_state\<lparr>engines_on := 0\<rparr>) moon_config (CHR ''X'') 0"
    "engines_on (fst (handle_game_turn dry_state moon_config (CHR ''Y'') 0)) = 0"
    "C (fst (handle_game_turn dry_state moon_config (CHR ''Y'') 0)) = C dry_state"
    by blast+
  from wet have "C (fst (handle_game_turn scenario_state moon_config (CHR ''Y'') 0)) =
     (if 0 < C scenario_state \<and> CHR ''Y'' \<noteq> CHR ''X'' \<and>
         \<not> turn_rejected scenario_state (CHR ''Y'')
      then C scenario_state - 1 else C scenario_state)"
    by blast
  with d have p3: "C (fst (handle_game_turn scenario_state moon_config (CHR ''Y'') 0)) = 4"
    by (simp add: turn_rejected_iff)
  from wet d(3) r(1)
  have "C (state (fst (the (main_step (CHR ''r'', []) scenario_world)))) =
     (if 0 < C (state scenario_world) then C (state scenario_world) - 1
      else C (state scenario_world))"
    by blast
  with d have p4: "C (state (fst (the (main_step (CHR ''r'', []) scenario_world)))) = 4"
    by simp
  have p2': "C (fst (handle_game_turn dry_state moon_config (CHR ''Y'') 0)) = 0"
    using p2(3) by (simp add: dry_state_def)
  from fuel r started p1 dry_fuel p2(1,2) p2' p3 d(3) p4 show ?thesis
    by blast
qed

section \<open>Terrain generator: the recommended landing zone\<close>

lemma fold_keep_first_max:
  fixes f :: "real \<Rightarrow> real"
  assumes above: "\<And>x. b < f x" and nonempty: "xs \<noteq> []"
  shows "fold (\<lambda>x acc. if f x > fst acc then (f x, x) else acc) xs (b, bx) =
           (Max (f ` set xs), hd (filter (\<lambda>x. f x = Max (f ` set xs)) xs))"
  using nonempty
proof (induction xs rule: rev_induct)
  case Nil
  then show ?case by simp
next
  case (snoc x xs)
  show ?case
  proof (cases "xs = []")
    case True
    with above [of x] show ?thesis
      by simp
  next
    case False
    let ?M = "Max (f ` set xs)"
    from False have fin: "finite (f ` set xs)" and ne: "f ` set xs \<noteq> {}"
      by simp_all
    from snoc.IH [OF False]
    have acc: "fold (\<lambda>x acc. if f x > fst acc then (f x, x) else acc) xs (b, bx) =
                 (?M, hd (filter (\<lambda>x. f x = ?M) xs))" .
    from Max_in [OF fin ne] have attained: "filter (\<lambda>x. f x = ?M) xs \<noteq> []"
      by (auto simp add: filter_empty_conv)
    have le: "\<And>y. y \<in> set xs \<Longrightarrow> f y \<le> ?M"
      using fin by (simp add: Max_ge)
    have M': "Max (f ` set (xs @ [x])) = max (f x) ?M"
      using fin ne by simp
    show ?thesis
    proof (cases "f x > ?M")
      case True
      have "\<forall>y\<in>set xs. f y \<noteq> f x"
      proof
        fix y assume "y \<in> set xs"
        from le [OF this] True show "f y \<noteq> f x"
          by simp
      qed
      then have "filter (\<lambda>y. f y = f x) xs = []"
        by (simp add: filter_empty_conv)
      with True acc M' show ?thesis
        by (simp add: max_def)
    next
      case False
      then have "max (f x) ?M = ?M"
        by (simp add: max_def)
      with False acc M' attained show ?thesis
        by simp
    qed
  qed
qed

lemma best_step_as_fold:
  "fold (best_step s) is acc =
     fold (\<lambda>x acc. if calculate_landing_safety s x > fst acc
                     then (calculate_landing_safety s x, x) else acc)
       (map (\<lambda>i. -100 + 10 * real i) is) acc"
proof (induction "is" arbitrary: acc)
  case Nil
  then show ?case by simp
next
  case (Cons i "is")
  have "best_step s i acc =
          (if calculate_landing_safety s (-100 + 10 * real i) > fst acc
           then (calculate_landing_safety s (-100 + 10 * real i), -100 + 10 * real i) else acc)"
    by (cases acc) (simp add: best_step_def Let_def mult.commute)
  with Cons.IH show ?case
    by simp
qed

lemma candidates_nonempty: "candidates \<noteq> []"
  by (simp add: candidates_def)

lemma best_scan_recommended: "best_scan s = (recommended_score s, recommended_x s)"
proof -
  have above: "\<And>x. -1 < calculate_landing_safety s x"
  proof -
    fix x
    from calculate_landing_safety_ge [of s x] show "-1 < calculate_landing_safety s x"
      by simp
  qed
  have "best_scan s =
          fold (\<lambda>x acc. if calculate_landing_safety s x > fst acc
                          then (calculate_landing_safety s x, x) else acc) candidates (-1, 0)"
    by (simp only: best_scan_def best_step_as_fold candidates_def)
  also have "\<dots> = (Max (calculate_landing_safety s ` set candidates),
      hd (filter (\<lambda>x. calculate_landing_safety s x =
            Max (calculate_landing_safety s ` set candidates)) candidates))"
    using above candidates_nonempty by (rule fold_keep_first_max)
  also have "\<dots> = (recommended_score s, recommended_x s)"
    by (simp only: recommended_score_def recommended_x_def list.set_map)
  finally show ?thesis .
qed

lemma calculate_landing_safety_terrain:
  assumes "terrain_height (radar s) = terrain_height (radar s')"
  shows "calculate_landing_safety s x = calculate_landing_safety s' x"
  unfolding calculate_landing_safety_def assms ..

lemma best_scan_terrain:
  assumes "terrain_height (radar s) = terrain_height (radar s')"
  shows "best_scan s = best_scan s'"
proof -
  have "best_step s = best_step s'"
    by (intro ext) (simp add: best_step_def calculate_landing_safety_terrain [OF assms])
  then show ?thesis
    by (simp add: best_scan_def)
qed

lemma generate_terrain_data_stored:
  "(safe_landing_score (radar (fst (generate_terrain_data s g))),
    safe_landing_x (radar (fst (generate_terrain_data s g)))) =
   best_scan (fst (generate_terrain_data s g))"
proof -
  obtain s1 g1 where f: "fold terrain_sample [0..<21] (s, g) = (s1, g1)"
    by (cases "fold terrain_sample [0..<21] (s, g)") auto
  obtain bs bx where b: "best_scan s1 = (bs, bx)"
    by (cases "best_scan s1") auto
  let ?s3 = "s1\<lparr>radar := (radar s1)\<lparr>safe_landing_x := bx, safe_landing_score := bs\<rparr>\<rparr>"
  have gen: "fst (generate_terrain_data s g) = ?s3"
    by (simp add: generate_terrain_data_def f b Let_def)
  have "best_scan ?s3 = best_scan s1"
    by (rule best_scan_terrain) simp
  with gen b show ?thesis
    by simp
qed

lemma terrain_index_sample:
  assumes "i < 21"
  shows "terrain_index (-100 + 10 * real i) = int i"
proof -
  from assms have small: "\<bar>10 * int i\<bar> < 2 ^ 53" "\<bar>int i\<bar> < 2 ^ 53"
    by simp_all
  have "fl (-100 + 10 * real i + 100) = fl (real_of_int (10 * int i))"
    by simp
  also have "\<dots> = real_of_int (10 * int i)"
    using small(1) by (rule fl_of_int)
  finally have "fl (fl (-100 + 10 * real i + 100) / 10) = fl (real_of_int (int i))"
    by simp
  also have "\<dots> = real_of_int (int i)"
    using small(2) by (rule fl_of_int)
  finally show ?thesis
    by (simp add: terrain_index_def c_trunc_def)
qed

lemma candidates_interior: "map terrain_index candidates = map int [1..<20]"
proof -
  have "map terrain_index candidates =
          map (\<lambda>i. terrain_index (-100 + 10 * real i)) [1..<20]"
    by (simp only: candidates_def list.map_comp comp_def)
  also have "\<dots> = map int [1..<20]"
  proof (rule map_cong [OF refl])
    fix i :: nat
    assume "i \<in> set [1..<20]"
    then have "i < 21"
      by simp
    then show "terrain_index (-100 + 10 * real i) = int i"
      by (rule terrain_index_sample)
  qed
  finally show ?thesis .
qed

text \<open>
  Claim C4. For every prior state and every random source, the score and coordinate that
  \<^verbatim>\<open>generate_terrain_data\<close> stores are the maximum of the safety scorer over the
  candidates \<open>x = -100 + 10 i\<close>, \<open>i = 1..19\<close>, of the generated terrain and the leftmost
  candidate reaching that maximum; running the scan of the source again on the stored
  state gives the stored pair back. The scan of the source (strict \<open>>\<close>, starting from
  \<open>-1\<close>) computes exactly that maximum and leftmost candidate on every state, and the
  candidates map to the terrain indices \<open>1..19\<close>.
\<close>

theorem recommendation_is_leftmost_best:
  "safe_landing_score (radar (fst (generate_terrain_data s g))) =
     recommended_score (fst (generate_terrain_data s g)) \<and>
   safe_landing_x (radar (fst (generate_terrain_data s g))) =
     recommended_x (fst (generate_terrain_data s g)) \<and>
   best_scan (fst (generate_terrain_data s g)) =
     (safe_landing_score (radar (fst (generate_terrain_data s g))),
      safe_landing_x (radar (fst (generate_terrain_data s g)))) \<and>
   best_scan s' = (recommended_score s', recommended_x s') \<and>
   map terrain_index candidates = map int [1..<20]"
  using generate_terrain_data_stored [of s g]
    best_scan_recommended [of "fst (generate_terrain_data s g)"]
    best_scan_recommended [of s'] candidates_interior
  by simp

lemma best_scan_rough: "best_scan soft_touchdown = (100, 30)"
  by (simp add: best_scan_def best_step_def calculate_landing_safety_def terrain_index_def
      c_trunc_def soft_touchdown_def rough_radar_def Let_def upt_rec fl_minus)

theorem recommendation_is_leftmost_best_witness:
  "best_scan soft_touchdown = (100, 30) \<and> recommended_score soft_touchdown = 100 \<and>
   recommended_x soft_touchdown = 30 \<and> calculate_landing_safety soft_touchdown 40 = 100"
  using recommendation_is_leftmost_best [where s' = soft_touchdown] best_scan_rough
  by (simp add: calculate_landing_safety_def terrain_index_def c_trunc_def soft_touchdown_def
      rough_radar_def Let_def fl_minus)

end
